theory Spec2Isabelle
  imports Main "HOL-Library.Word" "HOL-Library.Multiset"
begin

unbundle bit_operations_syntax

section \<open>The uwsgi transport of caddy-uwsgi-transport (uwsgi.go)\<close>

text \<open>
  A shallow embedding of \<^verbatim>\<open>writeBlockVar\<close>, \<^verbatim>\<open>generateBlockVars\<close> and
  \<^verbatim>\<open>Transport.RoundTrip\<close> of \<^verbatim>\<open>uwsgi.go\<close>.

  Go strings are byte sequences, and so are HOL strings (\<open>char list\<close>, one \<open>char\<close> per
  byte). Bytes on the wire are \<open>8 word\<close>, a \<^verbatim>\<open>uint16\<close> is a \<open>16 word\<close>.

  Two things come from Go and not from this file, and are parameters of the functions
  below: \<open>up\<close>, what \<^verbatim>\<open>strings.ToUpper\<close> does to a string that is not ASCII, and \<open>ks\<close>,
  the order in which the run time visits the entries of a map.
\<close>

type_synonym byte = "8 word"

subsection \<open>Run-time failures\<close>

text \<open>
  A Go function of this file either panics or returns. An index out of range (line 100,
  \<^verbatim>\<open>remoteAddr[0]\<close> on the empty string) is a run-time panic, not an \<^verbatim>\<open>error\<close> value.
\<close>

datatype go_panic = IndexOutOfRange

datatype 'a outcome = Panic go_panic | Return 'a

datatype go_error =
    AddrError string   \<comment> \<open>\<^verbatim>\<open>net.AddrError\<close>, with its \<^verbatim>\<open>Err\<close> text\<close>
  | DialError          \<comment> \<open>what \<^verbatim>\<open>net.Dial\<close> returned\<close>
  | WriteError         \<comment> \<open>what a \<^verbatim>\<open>Write\<close> on the connection returned\<close>
  | ReadError          \<comment> \<open>what a \<^verbatim>\<open>Read\<close> of the request body returned\<close>
  | ResponseError      \<comment> \<open>what \<^verbatim>\<open>http.ReadResponse\<close> returned\<close>

subsection \<open>Go maps\<close>

text \<open>
  A Go map is an association list with one entry per key. \<^verbatim>\<open>m[k] = v\<close> replaces the
  value of a key that is present and adds the entry otherwise.
\<close>

type_synonym 'v gomap = "(string \<times> 'v) list"

fun mapassign :: "'v gomap \<Rightarrow> string \<Rightarrow> 'v \<Rightarrow> 'v gomap" where
  "mapassign [] k v = [(k, v)]"
| "mapassign ((k', v') # m) k v =
     (if k' = k then (k, v) # m else (k', v') # mapassign m k v)"

text \<open>
  \<^verbatim>\<open>for k, v := range m\<close> visits every entry once, in an order the run time chooses
  and that differs from run to run. The choices of one loop are a list of numbers: at each
  step the next number selects one of the entries not visited yet. Every list of choices
  gives a permutation of the entries.
\<close>

fun rangeOrder :: "nat list \<Rightarrow> 'a list \<Rightarrow> 'a list" where
  "rangeOrder ks [] = []"
| "rangeOrder [] (x # xs) = x # xs"
| "rangeOrder (k # ks) (x # xs) =
     (let i = k mod length (x # xs)
      in (x # xs) ! i # rangeOrder ks (take i (x # xs) @ drop (Suc i) (x # xs)))"

subsection \<open>The library functions the encoder calls\<close>

text \<open>\<^verbatim>\<open>strings.IndexByte\<close> and \<^verbatim>\<open>strings.LastIndexByte\<close>; \<open>None\<close> is Go's \<open>-1\<close>.\<close>

fun IndexByte :: "string \<Rightarrow> char \<Rightarrow> nat option" where
  "IndexByte [] c = None"
| "IndexByte (x # xs) c = (if x = c then Some 0 else map_option Suc (IndexByte xs c))"

definition LastIndexByte :: "string \<Rightarrow> char \<Rightarrow> nat option" where
  "LastIndexByte s c =
     (case IndexByte (rev s) c of None \<Rightarrow> None | Some k \<Rightarrow> Some (length s - 1 - k))"

text \<open>
  \<^verbatim>\<open>net.SplitHostPort\<close> of Go's standard library. On every error it returns empty
  strings for host and port together with the error.
\<close>

definition missingPort :: string where
  "missingPort = ''missing port in address''"

definition tooManyColons :: string where
  "tooManyColons = ''too many colons in address''"

definition splitTail :: "string \<Rightarrow> string \<Rightarrow> nat \<Rightarrow> nat \<Rightarrow> nat \<Rightarrow> go_error + (string \<times> string)" where
  "splitTail hostport host j k i =
     (if IndexByte (drop j hostport) (CHR ''['') \<noteq> None
        then Inl (AddrError ''unexpected '[' in address'')
      else if IndexByte (drop k hostport) (CHR '']'') \<noteq> None
        then Inl (AddrError ''unexpected ']' in address'')
      else Inr (host, drop (i + 1) hostport))"

definition SplitHostPort :: "string \<Rightarrow> go_error + (string \<times> string)" where
  "SplitHostPort hostport =
     (case LastIndexByte hostport (CHR '':'') of
        None \<Rightarrow> Inl (AddrError missingPort)
      | Some i \<Rightarrow>
          if hd hostport = CHR ''[''
          then (case IndexByte hostport (CHR '']'') of
                  None \<Rightarrow> Inl (AddrError ''missing ']' in address'')
                | Some e \<Rightarrow>
                    if e + 1 = length hostport then Inl (AddrError missingPort)
                    else if e + 1 = i
                      then splitTail hostport (take (e - 1) (drop 1 hostport)) 1 (e + 1) i
                    else if hostport ! (e + 1) = CHR '':'' then Inl (AddrError tooManyColons)
                    else Inl (AddrError missingPort))
          else (let host = take i hostport
                in if IndexByte host (CHR '':'') \<noteq> None then Inl (AddrError tooManyColons)
                   else splitTail hostport host 0 0 i))"

text \<open>
  \<^verbatim>\<open>strings.Split(s, sep)\<close> for a separator of one byte, as the encoder calls it
  (\<^verbatim>\<open>":"\<close>): the pieces of \<open>s\<close> between the separators, always at least one piece.
\<close>

fun Split :: "string \<Rightarrow> char \<Rightarrow> string list" where
  "Split [] c = [[]]"
| "Split (x # xs) c =
     (if x = c then [] # Split xs c
      else (case Split xs c of [] \<Rightarrow> [[x]] | p # ps \<Rightarrow> (x # p) # ps))"

text \<open>\<^verbatim>\<open>strings.Join(elems, sep)\<close>.\<close>

fun Join :: "string list \<Rightarrow> string \<Rightarrow> string" where
  "Join [] sep = []"
| "Join [e] sep = e"
| "Join (e # e' # es) sep = e @ sep @ Join (e' # es) sep"

text \<open>
  \<^verbatim>\<open>strings.ToUpper\<close>. A string whose bytes are all below 128 is mapped byte by byte:
  \<open>a\<close> to \<open>z\<close> become \<open>A\<close> to \<open>Z\<close> (\<^verbatim>\<open>c -= 'a' - 'A'\<close>), every other byte stays. A string
  with a byte from 128 on goes through \<^verbatim>\<open>strings.Map(unicode.ToUpper, s)\<close>, which works on
  code points with the case tables of Go's \<^verbatim>\<open>unicode\<close> package. Those tables are not part of
  this repository: that mapping is the parameter \<open>up\<close> of \<open>ToUpper\<close> and of every function
  that reaches it.
\<close>

definition toUpperByte :: "char \<Rightarrow> char" where
  "toUpperByte c =
     (let n = (of_char c :: nat) in if 97 \<le> n \<and> n \<le> 122 then char_of (n - 32) else c)"

definition ToUpper :: "(string \<Rightarrow> string) \<Rightarrow> string \<Rightarrow> string" where
  "ToUpper up s =
     (if \<forall>c \<in> set s. (of_char c :: nat) < 128 then map toUpperByte s else up s)"

text \<open>\<^verbatim>\<open>headerNameReplacer = strings.NewReplacer("-", "_")\<close> and its \<^verbatim>\<open>Replace\<close>.\<close>

definition headerNameReplacer_Replace :: "string \<Rightarrow> string" where
  "headerNameReplacer_Replace s = map (\<lambda>c. if c = CHR ''-'' then CHR ''_'' else c) s"

text \<open>
  \<^verbatim>\<open>http.Header.Get(key)\<close> for a key in canonical form, as both calls of the encoder
  pass it: the first value stored under the key, the empty string when there is none.
\<close>

definition Header_Get :: "string list gomap \<Rightarrow> string \<Rightarrow> string" where
  "Header_Get h key = (case map_of h key of None \<Rightarrow> [] | Some [] \<Rightarrow> [] | Some (v # _) \<Rightarrow> v)"

subsection \<open>Requests and the transport\<close>

text \<open>
  The fields of \<^verbatim>\<open>http.Request\<close> that the transport reads. \<open>TLS\<close> is
  \<^verbatim>\<open>req.TLS != nil\<close>. The body is a stream: the chunks its reads deliver, and whether the
  stream ends with a read error instead of end of file.
\<close>

record ReadCloser =
  chunks :: "byte list list"
  readFails :: bool

record Request =
  Method :: string
  URL_Scheme :: string
  URL_Host :: string
  URL_Path :: string
  URL_RawQuery :: string
  Proto :: string
  Header :: "string list gomap"
  Body :: "ReadCloser option"
  Host :: string
  RemoteAddr :: string
  RequestURI :: string
  TLS :: bool

record Transport =
  UWSGIParams :: "string gomap"

subsection \<open>writeBlockVar\<close>

definition uint16 :: "nat \<Rightarrow> 16 word" where
  "uint16 n = word_of_nat n"

text \<open>\<^verbatim>\<open>binary.Write(w, binary.LittleEndian, x)\<close> for a \<^verbatim>\<open>uint16\<close>: low byte first.\<close>

definition LittleEndian_uint16 :: "16 word \<Rightarrow> byte list" where
  "LittleEndian_uint16 x = [ucast x, ucast (drop_bit 8 x)]"

definition bytes_of :: "string \<Rightarrow> byte list" where
  "bytes_of s = map of_char s"

definition writeBlockVar :: "byte list \<Rightarrow> string \<Rightarrow> byte list" where
  "writeBlockVar buffer s =
     (let b = bytes_of s
      in buffer @ LittleEndian_uint16 (uint16 (length b)) @ b)"

text \<open>
  \<^verbatim>\<open>binary.LittleEndian.Uint16\<close>, the reader of the length field on the other side of
  the connection.
\<close>

definition LittleEndian_Uint16 :: "byte list \<Rightarrow> 16 word" where
  "LittleEndian_Uint16 b = ucast (b ! 0) OR push_bit 8 (ucast (b ! 1))"

subsection \<open>generateBlockVars\<close>

text \<open>Lines 80 to 90: the server's name and port.\<close>

definition serverNamePort :: "Request \<Rightarrow> string \<times> string" where
  "serverNamePort req =
     (let (serverName, serverPort) =
            (case SplitHostPort (Host req) of
               Inl err \<Rightarrow> (Host req, [])
             | Inr (h, p) \<Rightarrow> (h, p));
          serverPort = (if serverPort = [] then (if \<not> TLS req then ''80'' else ''443'')
                        else serverPort)
      in (serverName, serverPort))"

text \<open>
  Lines 97 to 103 and 118: the peer's address and port. \<^verbatim>\<open>remoteAddr[0]\<close> panics when
  \<^verbatim>\<open>remoteAddr\<close> is empty; \<^verbatim>\<open>&&\<close> evaluates its right side only after the left one.
\<close>

definition remoteAddrPort :: "Request \<Rightarrow> (string \<times> string) outcome" where
  "remoteAddrPort req =
     (let remoteAddrSplit = Split (RemoteAddr req) (CHR '':'');
          remoteAddr = Join (butlast remoteAddrSplit) '':''
      in if remoteAddr = [] then Panic IndexOutOfRange
         else
           let remoteAddr =
                 (if hd remoteAddr = CHR ''['' \<and> last remoteAddr = CHR '']''
                  then take (length remoteAddr - 2) (drop 1 remoteAddr)
                  else remoteAddr)
           in Return (remoteAddr, last remoteAddrSplit))"

text \<open>Lines 105 to 127: the map literal and the second assignment of \<^verbatim>\<open>HTTPS\<close>.\<close>

definition requestVars :: "Request \<Rightarrow> string \<Rightarrow> string \<Rightarrow> string \<Rightarrow> string \<Rightarrow> string gomap" where
  "requestVars req serverName serverPort remoteAddr remotePort =
     (let httpsConn = (if TLS req then ''on'' else []);
          vars = [
            (''QUERY_STRING'', URL_RawQuery req),
            (''REQUEST_METHOD'', Method req),
            (''CONTENT_TYPE'', Header_Get (Header req) ''Content-Type''),
            (''CONTENT_LENGTH'', Header_Get (Header req) ''Content-Length''),
            (''REQUEST_URI'', RequestURI req),
            (''PATH_INFO'', URL_Path req),
            (''SERVER_PROTOCOL'', Proto req),
            (''REQUEST_SCHEME'', URL_Scheme req),
            (''HTTPS'', httpsConn),
            (''REMOTE_ADDR'', remoteAddr),
            (''REMOTE_PORT'', remotePort),
            (''SERVER_PORT'', serverPort),
            (''SERVER_NAME'', serverName),
            (''HTTP_HOST'', Host req)]
      in if TLS req then mapassign vars ''HTTPS'' ''on'' else vars)"

text \<open>
  Lines 129 to 131: one assignment per header, in the order the range loop visits the
  header map. The list \<open>Header req\<close> is in that order.
\<close>

definition headerVarName :: "(string \<Rightarrow> string) \<Rightarrow> string \<Rightarrow> string" where
  "headerVarName up name = ''HTTP_'' @ headerNameReplacer_Replace (ToUpper up name)"

definition headerVars ::
    "(string \<Rightarrow> string) \<Rightarrow> string gomap \<Rightarrow> string list gomap \<Rightarrow> string gomap" where
  "headerVars up vars hdr =
     foldl (\<lambda>vars (name, value). mapassign vars (headerVarName up name) (Join value '', '')) vars hdr"

text \<open>
  Lines 133 to 135: one assignment per static parameter, in the order the range loop visits
  \<^verbatim>\<open>t.UWSGIParams\<close>. The list \<open>UWSGIParams t\<close> is in that order.
\<close>

definition staticVars :: "string gomap \<Rightarrow> string gomap \<Rightarrow> string gomap" where
  "staticVars vars params = foldl (\<lambda>vars (name, value). mapassign vars name value) vars params"

text \<open>The map \<^verbatim>\<open>vars\<close> before line 133, and before line 137.\<close>

definition derivedVars :: "(string \<Rightarrow> string) \<Rightarrow> Request \<Rightarrow> string gomap outcome" where
  "derivedVars up req =
     (let (serverName, serverPort) = serverNamePort req
      in case remoteAddrPort req of
           Panic p \<Rightarrow> Panic p
         | Return (remoteAddr, remotePort) \<Rightarrow>
             Return (headerVars up (requestVars req serverName serverPort remoteAddr remotePort)
                       (Header req)))"

definition mergedVars ::
    "(string \<Rightarrow> string) \<Rightarrow> Request \<Rightarrow> Transport \<Rightarrow> string gomap outcome" where
  "mergedVars up req t =
     (case derivedVars up req of
        Panic p \<Rightarrow> Panic p
      | Return vars \<Rightarrow> Return (staticVars vars (UWSGIParams t)))"

text \<open>
  Lines 137 to 141: the entries in the order \<open>ks\<close> makes the last range loop visit them,
  each written as name and value.
\<close>

definition blockEntries ::
    "(string \<Rightarrow> string) \<Rightarrow> Request \<Rightarrow> Transport \<Rightarrow> nat list
       \<Rightarrow> (string \<times> string) list outcome" where
  "blockEntries up req t ks =
     (case mergedVars up req t of
        Panic p \<Rightarrow> Panic p
      | Return vars \<Rightarrow> Return (rangeOrder ks vars))"

definition packetBody :: "(string \<times> string) list \<Rightarrow> byte list" where
  "packetBody entries =
     foldl (\<lambda>buffer (key, val). writeBlockVar (writeBlockVar buffer key) val) [] entries"

text \<open>
  The function returns the buffer and an \<^verbatim>\<open>error\<close>; \<open>None\<close> is \<^verbatim>\<open>nil\<close>. Its only
  \<^verbatim>\<open>return\<close> is line 142.
\<close>

definition generateBlockVars ::
    "(string \<Rightarrow> string) \<Rightarrow> Request \<Rightarrow> Transport \<Rightarrow> nat list
       \<Rightarrow> (byte list \<times> go_error option) outcome" where
  "generateBlockVars up req t ks =
     (case blockEntries up req t ks of
        Panic p \<Rightarrow> Panic p
      | Return entries \<Rightarrow> Return (packetBody entries, None))"

subsection \<open>Reading a block\<close>

text \<open>
  The block as the backend reads it (the wire format of the uwsgi protocol): a name and a
  value, one pair after the other until the bytes end, each as a little-endian
  \<^verbatim>\<open>uint16\<close> length followed by that many bytes. \<open>None\<close> when a length runs past the end.
\<close>

definition string_of :: "byte list \<Rightarrow> string" where
  "string_of b = map (\<lambda>x. char_of (unat x)) b"

fun readBlockVar :: "byte list \<Rightarrow> (string \<times> byte list) option" where
  "readBlockVar (lo # hi # rest) =
     (let n = unat (LittleEndian_Uint16 [lo, hi])
      in if n \<le> length rest then Some (string_of (take n rest), drop n rest) else None)"
| "readBlockVar _ = None"

function readBlock :: "byte list \<Rightarrow> (string \<times> string) list option" where
  "readBlock b =
     (if b = [] then Some []
      else (case readBlockVar b of
              None \<Rightarrow> None
            | Some (key, b') \<Rightarrow>
                (case readBlockVar b' of
                   None \<Rightarrow> None
                 | Some (val, b'') \<Rightarrow> map_option ((#) (key, val)) (readBlock b''))))"
  by pat_completeness auto
termination
  apply (relation "measure length")
   apply simp
  apply (auto simp: Let_def elim!: readBlockVar.elims split: if_splits)
  apply (drule arg_cong [where f = length])
  apply simp
  done

declare readBlock.simps [simp del]

subsection \<open>RoundTrip\<close>

text \<open>
  What the relay does to the outside world, written down as it goes: the target it
  dialled, the bytes it handed to \<^verbatim>\<open>Write\<close> calls on the connection (in order), the
  number of those calls, and the number of \<^verbatim>\<open>Close\<close> calls on the request body.
\<close>

record Relay =
  dialed :: "(string \<times> string) option"
  written :: "byte list"
  writes :: nat
  closes :: nat

record Response =
  StatusCode :: nat
  ResponseBody :: "byte list"

text \<open>
  What the outside world does to the relay: the dial target the host supplies
  (\<^verbatim>\<open>reverseproxy.GetDialInfo\<close>), whether \<^verbatim>\<open>net.Dial\<close> fails for a network and an
  address, whether the \<open>n\<close>-th \<^verbatim>\<open>Write\<close> on the connection returns an error, and what
  \<^verbatim>\<open>http.ReadResponse\<close> makes of the bytes the backend sends.
\<close>

record Env =
  dialInfo :: "(string \<times> string) option"
  dialFails :: "string \<Rightarrow> string \<Rightarrow> bool"
  writeFails :: "nat \<Rightarrow> bool"
  reply :: "go_error + Response"

definition conn_Write :: "Env \<Rightarrow> Relay \<Rightarrow> byte list \<Rightarrow> Relay \<times> go_error option" where
  "conn_Write env st b =
     (st\<lparr>written := written st @ b, writes := Suc (writes st)\<rparr>,
      if writeFails env (writes st) then Some WriteError else None)"

text \<open>
  \<^verbatim>\<open>io.Copy(conn, blockVars)\<close>: a \<^verbatim>\<open>bytes.Buffer\<close> writes itself with one
  \<^verbatim>\<open>Write\<close> of all its bytes, and with none when it is empty.
\<close>

definition io_Copy_Buffer :: "Env \<Rightarrow> Relay \<Rightarrow> byte list \<Rightarrow> Relay \<times> go_error option" where
  "io_Copy_Buffer env st buf = (if buf = [] then (st, None) else conn_Write env st buf)"

text \<open>
  \<^verbatim>\<open>io.Copy(conn, req.Body)\<close>: every chunk read is written, until a write fails or the
  body ends; a read that delivers no bytes writes nothing.
\<close>

fun copyChunks :: "Env \<Rightarrow> Relay \<Rightarrow> byte list list \<Rightarrow> Relay \<times> go_error option" where
  "copyChunks env st [] = (st, None)"
| "copyChunks env st (c # cs) =
     (if c = [] then copyChunks env st cs
      else (case conn_Write env st c of
              (st', Some ew) \<Rightarrow> (st', Some ew)
            | (st', None) \<Rightarrow> copyChunks env st' cs))"

definition io_Copy_Body :: "Env \<Rightarrow> Relay \<Rightarrow> ReadCloser \<Rightarrow> Relay \<times> go_error option" where
  "io_Copy_Body env st body =
     (case copyChunks env st (chunks body) of
        (st', Some ew) \<Rightarrow> (st', Some ew)
      | (st', None) \<Rightarrow> (st', if readFails body then Some ReadError else None))"

definition Body_Close :: "Relay \<Rightarrow> Relay" where
  "Body_Close st = st\<lparr>closes := Suc (closes st)\<rparr>"

text \<open>
  The statement that ends a call: the \<^verbatim>\<open>return\<close> of line 154, of line 159, of line 172,
  or a panic.
\<close>

datatype exit_path = DialFailed | EncodingFailed | Responded | Panicked

record Result =
  returned :: "(go_error + Response) outcome"
  exit_at :: exit_path
  final :: Relay

definition dialTarget :: "Env \<Rightarrow> Request \<Rightarrow> string \<times> string" where
  "dialTarget env req =
     (case dialInfo env of
        Some (network, address) \<Rightarrow> (network, address)
      | None \<Rightarrow> (''tcp'', URL_Host req))"

text \<open>
  Lines 145 to 173. The results of the four writes and of the copy of the body are
  dropped, as the source drops them.
\<close>

definition RoundTrip ::
    "(string \<Rightarrow> string) \<Rightarrow> Env \<Rightarrow> Transport \<Rightarrow> Request \<Rightarrow> nat list \<Rightarrow> Result" where
  "RoundTrip up env t req ks =
     (let (network, address) = dialTarget env req;
          st = \<lparr>dialed = None, written = [], writes = 0, closes = 0\<rparr>
      in if dialFails env network address
         then \<lparr>returned = Return (Inl DialError), exit_at = DialFailed, final = st\<rparr>
         else
           let st = st\<lparr>dialed := Some (network, address)\<rparr>
           in case generateBlockVars up req t ks of
                Panic p \<Rightarrow> \<lparr>returned = Panic p, exit_at = Panicked, final = st\<rparr>
              | Return (blockVars, Some err) \<Rightarrow>
                  \<lparr>returned = Return (Inl err), exit_at = EncodingFailed, final = st\<rparr>
              | Return (blockVars, None) \<Rightarrow>
                  let st = fst (conn_Write env st [0]);
                      st = fst (conn_Write env st
                                  (LittleEndian_uint16 (uint16 (length blockVars))));
                      st = fst (conn_Write env st [0]);
                      st = fst (io_Copy_Buffer env st blockVars);
                      st = (case Body req of
                              None \<Rightarrow> st
                            | Some body \<Rightarrow> Body_Close (fst (io_Copy_Body env st body)))
                  in \<lparr>returned = Return (reply env), exit_at = Responded, final = st\<rparr>)"

subsection \<open>Example inputs\<close>

text \<open>
  The header names of the examples have no byte from 128 on, so \<^verbatim>\<open>strings.ToUpper\<close> never
  consults the Unicode tables on them. The examples pass this mapping in their place.
\<close>

definition asciiUpper :: "string \<Rightarrow> string" where
  "asciiUpper s = map toUpperByte s"

text \<open>
  A plaintext \<^verbatim>\<open>GET /status?x=1\<close> for \<^verbatim>\<open>svc.local\<close> from the peer \<^verbatim>\<open>[::1]:54321\<close>,
  with one header sent once and one sent twice, and no body.
\<close>

definition exampleRequest :: Request where
  "exampleRequest =
     \<lparr>Method = ''GET'', URL_Scheme = ''http'', URL_Host = ''backend:3031'',
      URL_Path = ''/status'', URL_RawQuery = ''x=1'', Proto = ''HTTP/1.1'',
      Header = [(''X-Custom-Id'', [''42'']), (''Accept'', [''text/html'', ''application/json''])],
      Body = None, Host = ''svc.local'', RemoteAddr = ''[::1]:54321'',
      RequestURI = ''/status?x=1'', TLS = False\<rparr>"

definition exampleDerived :: "string gomap" where
  "exampleDerived =
     [(''QUERY_STRING'', ''x=1''), (''REQUEST_METHOD'', ''GET''), (''CONTENT_TYPE'', []),
      (''CONTENT_LENGTH'', []), (''REQUEST_URI'', ''/status?x=1''), (''PATH_INFO'', ''/status''),
      (''SERVER_PROTOCOL'', ''HTTP/1.1''), (''REQUEST_SCHEME'', ''http''), (''HTTPS'', []),
      (''REMOTE_ADDR'', ''::1''), (''REMOTE_PORT'', ''54321''), (''SERVER_PORT'', ''80''),
      (''SERVER_NAME'', ''svc.local''), (''HTTP_HOST'', ''svc.local''),
      (''HTTP_X_CUSTOM_ID'', ''42''), (''HTTP_ACCEPT'', ''text/html, application/json'')]"

text \<open>Static parameters: one new name, and two names that the request derives too.\<close>

definition exampleTransport :: Transport where
  "exampleTransport =
     \<lparr>UWSGIParams = [(''SCRIPT_NAME'', ''/app''), (''SERVER_NAME'', ''app.internal''),
                     (''HTTP_ACCEPT'', ''*/*'')]\<rparr>"

definition noParams :: Transport where
  "noParams = \<lparr>UWSGIParams = []\<rparr>"

text \<open>A backend that is reachable, takes every write and answers \<^verbatim>\<open>200\<close> with \<^verbatim>\<open>ok\<close>.\<close>

definition okResponse :: Response where
  "okResponse = \<lparr>StatusCode = 200, ResponseBody = [111, 107]\<rparr>"

definition exampleEnv :: Env where
  "exampleEnv =
     \<lparr>dialInfo = None, dialFails = (\<lambda>network address. False), writeFails = (\<lambda>n. False),
      reply = Inr okResponse\<rparr>"

text \<open>
  Two header fields whose names differ (\<^verbatim>\<open>X-A\<close> and \<^verbatim>\<open>X_a\<close>, both in canonical form)
  and give the same variable name, and the derived variables when the range loop visits
  them in this order.
\<close>

definition collidingRequest :: Request where
  "collidingRequest = exampleRequest\<lparr>Header := [(''X-A'', [''1'']), (''X_a'', [''2''])]\<rparr>"

definition collidingDerived :: "string gomap" where
  "collidingDerived =
     [(''QUERY_STRING'', ''x=1''), (''REQUEST_METHOD'', ''GET''), (''CONTENT_TYPE'', []),
      (''CONTENT_LENGTH'', []), (''REQUEST_URI'', ''/status?x=1''), (''PATH_INFO'', ''/status''),
      (''SERVER_PROTOCOL'', ''HTTP/1.1''), (''REQUEST_SCHEME'', ''http''), (''HTTPS'', []),
      (''REMOTE_ADDR'', ''::1''), (''REMOTE_PORT'', ''54321''), (''SERVER_PORT'', ''80''),
      (''SERVER_NAME'', ''svc.local''), (''HTTP_HOST'', ''svc.local''), (''HTTP_X_A'', ''2'')]"

text \<open>The entries of the example request under the example transport.\<close>

definition exampleEntries :: "(string \<times> string) list" where
  "exampleEntries =
     [(''QUERY_STRING'', ''x=1''), (''REQUEST_METHOD'', ''GET''), (''CONTENT_TYPE'', []),
      (''CONTENT_LENGTH'', []), (''REQUEST_URI'', ''/status?x=1''), (''PATH_INFO'', ''/status''),
      (''SERVER_PROTOCOL'', ''HTTP/1.1''), (''REQUEST_SCHEME'', ''http''), (''HTTPS'', []),
      (''REMOTE_ADDR'', ''::1''), (''REMOTE_PORT'', ''54321''), (''SERVER_PORT'', ''80''),
      (''SERVER_NAME'', ''app.internal''), (''HTTP_HOST'', ''svc.local''),
      (''HTTP_X_CUSTOM_ID'', ''42''), (''HTTP_ACCEPT'', ''*/*''), (''SCRIPT_NAME'', ''/app'')]"

text \<open>
  A request with a body of two chunks, a request with a query string of 65536 bytes and no
  header, a backend that refuses the connection, and a connection on which every write fails while the response
  can still be read.
\<close>

definition postRequest :: Request where
  "postRequest =
     exampleRequest\<lparr>Method := ''POST'', Body := Some \<lparr>chunks = [[1, 2], [3]], readFails = False\<rparr>\<rparr>"

definition bigRequest :: Request where
  "bigRequest =
     exampleRequest\<lparr>URL_RawQuery := replicate 65536 (CHR ''a''),
                    RequestURI := ''/status?'' @ replicate 65536 (CHR ''a''), Header := []\<rparr>"

definition bigDerived :: "string gomap" where
  "bigDerived =
     [(''QUERY_STRING'', replicate 65536 (CHR ''a'')), (''REQUEST_METHOD'', ''GET''),
      (''CONTENT_TYPE'', []), (''CONTENT_LENGTH'', []),
      (''REQUEST_URI'', ''/status?'' @ replicate 65536 (CHR ''a'')),
      (''PATH_INFO'', ''/status''), (''SERVER_PROTOCOL'', ''HTTP/1.1''),
      (''REQUEST_SCHEME'', ''http''), (''HTTPS'', []), (''REMOTE_ADDR'', ''::1''),
      (''REMOTE_PORT'', ''54321''), (''SERVER_PORT'', ''80''), (''SERVER_NAME'', ''svc.local''),
      (''HTTP_HOST'', ''svc.local'')]"

definition refusedEnv :: Env where
  "refusedEnv = exampleEnv\<lparr>dialFails := (\<lambda>network address. True)\<rparr>"

definition brokenPipeEnv :: Env where
  "brokenPipeEnv = exampleEnv\<lparr>writeFails := (\<lambda>n. True)\<rparr>"

text \<open>
  A request with one header whose value has 65537 bytes: a letter, then 65536 bytes that
  read as two pairs of a name and a value (the length bytes are tabs and letters:
  \<open>09 09\<close> is 2313, \<open>s v\<close> is 30323, \<open>s w\<close> is 30579). Its derived variables, and the
  entries that a reader finds in its block.
\<close>

definition smuggledValue :: string where
  "smuggledValue =
     ''a'' @ [CHR 0x09, CHR 0x09] @ replicate 2313 (CHR ''n'') @ ''sv'' @ replicate 30323 (CHR ''x'')
          @ [CHR 0x09, CHR 0x09] @ replicate 2313 (CHR ''n'') @ ''sw'' @ replicate 30579 (CHR ''y'')"

definition smugglingRequest :: Request where
  "smugglingRequest = exampleRequest\<lparr>Header := [(''X-A'', [smuggledValue])]\<rparr>"

definition smugglingDerived :: "string gomap" where
  "smugglingDerived = take 14 exampleDerived @ [(''HTTP_X_A'', smuggledValue)]"

definition smuggledEntries :: "(string \<times> string) list" where
  "smuggledEntries =
     take 14 exampleDerived @
     [(''HTTP_X_A'', ''a''),
      (replicate 2313 (CHR ''n''), replicate 30323 (CHR ''x'')),
      (replicate 2313 (CHR ''n''), replicate 30579 (CHR ''y''))]"

section \<open>Properties\<close>

subsection \<open>Go maps and the range loop\<close>

lemma map_of_mapassign: "map_of (mapassign m k v) = (map_of m)(k \<mapsto> v)"
  by (induction m k v rule: mapassign.induct) (auto simp: fun_eq_iff)

lemma keys_mapassign:
  "map fst (mapassign m k v) = (if k \<in> fst ` set m then map fst m else map fst m @ [k])"
  by (induction m k v rule: mapassign.induct) auto

lemma distinct_mapassign:
  "distinct (map fst m) \<Longrightarrow> distinct (map fst (mapassign m k v))"
  by (simp add: keys_mapassign)

lemma mset_rangeOrder: "mset (rangeOrder ks xs) = mset xs"
proof (induction ks xs rule: rangeOrder.induct)
  case (3 k ks x xs)
  let ?ys = "x # xs"
  let ?i = "k mod length ?ys"
  have i: "?i < length ?ys" by simp
  have "mset (rangeOrder (k # ks) ?ys) = {#?ys ! ?i#} + mset (take ?i ?ys @ drop (Suc ?i) ?ys)"
    using 3 by (simp add: Let_def del: take_Cons drop_Suc_Cons nth_Cons length_Cons)
  also have "\<dots> = mset (take ?i ?ys @ ?ys ! ?i # drop (Suc ?i) ?ys)" by simp
  also have "\<dots> = mset ?ys" using id_take_nth_drop [OF i] by simp
  finally show ?case .
qed simp_all

lemma set_rangeOrder: "set (rangeOrder ks xs) = set xs"
  using mset_rangeOrder [of ks xs] by (metis set_mset_mset)

lemma distinct_keys_rangeOrder:
  "distinct (map fst (rangeOrder ks xs)) = distinct (map fst xs)"
proof -
  have "mset (map fst (rangeOrder ks xs)) = mset (map fst xs)"
    using mset_rangeOrder [of ks xs] by (metis mset_map)
  then show ?thesis by (rule mset_eq_imp_distinct_iff)
qed

lemma map_of_rangeOrder:
  "distinct (map fst xs) \<Longrightarrow> map_of (rangeOrder ks xs) = map_of xs"
  by (simp add: map_of_inject_set distinct_keys_rangeOrder set_rangeOrder)

subsection \<open>The three stages of the variable map\<close>

lemma distinct_requestVars:
  "distinct (map fst (requestVars req sn sp ra rp))"
  by (simp add: requestVars_def keys_mapassign)

lemma distinct_headerVars:
  "distinct (map fst vars) \<Longrightarrow> distinct (map fst (headerVars up vars hdr))"
  unfolding headerVars_def
  by (induction hdr arbitrary: vars) (auto simp: distinct_mapassign)

lemma distinct_staticVars:
  "distinct (map fst vars) \<Longrightarrow> distinct (map fst (staticVars vars params))"
  unfolding staticVars_def
  by (induction params arbitrary: vars) (auto simp: distinct_mapassign)

lemma distinct_derivedVars:
  "derivedVars up req = Return dvars \<Longrightarrow> distinct (map fst dvars)"
  by (auto simp: derivedVars_def distinct_headerVars distinct_requestVars
           split: prod.splits outcome.splits)

text \<open>
  The static loop runs last, so its values stand: the merged map is the derived map
  overridden by the static one.
\<close>

lemma map_of_staticVars:
  "distinct (map fst params) \<Longrightarrow>
     map_of (staticVars vars params) = map_of vars ++ map_of params"
  unfolding staticVars_def
proof (induction params arbitrary: vars)
  case Nil
  then show ?case by simp
next
  case (Cons p ps)
  obtain k v where p: "p = (k, v)" by (cases p)
  from Cons.prems p have k: "map_of ps k = None" and d: "distinct (map fst ps)"
    by (auto simp: map_of_eq_None_iff)
  show ?case
    using Cons.IH [OF d, of "mapassign vars k v"] k
    by (auto simp: p map_of_mapassign fun_eq_iff map_add_def split: option.splits)
qed

subsection \<open>The serialised block\<close>

lemma writeBlockVar_append: "writeBlockVar buffer s = buffer @ writeBlockVar [] s"
  by (simp add: writeBlockVar_def Let_def)

lemma length_writeBlockVar: "length (writeBlockVar [] s) = 2 + length s"
  by (simp add: writeBlockVar_def Let_def LittleEndian_uint16_def bytes_of_def)

lemma foldl_writeBlockVar:
  "foldl (\<lambda>buffer (key, val). writeBlockVar (writeBlockVar buffer key) val) acc entries =
     acc @ concat (map (\<lambda>(key, val). writeBlockVar [] key @ writeBlockVar [] val) entries)"
proof (induction entries arbitrary: acc)
  case Nil
  then show ?case by simp
next
  case (Cons e es)
  obtain key val where e: "e = (key, val)" by (cases e)
  have "writeBlockVar (writeBlockVar acc key) val =
          acc @ writeBlockVar [] key @ writeBlockVar [] val"
    using writeBlockVar_append [of "writeBlockVar acc key" val]
          writeBlockVar_append [of acc key] by simp
  then show ?case by (simp add: e Cons.IH)
qed

text \<open>The block is the entries one after the other, each as name and value.\<close>

lemma packetBody_concat:
  "packetBody entries =
     concat (map (\<lambda>(key, val). writeBlockVar [] key @ writeBlockVar [] val) entries)"
  by (simp add: packetBody_def foldl_writeBlockVar)

lemma length_packetBody:
  "length (packetBody entries) = (\<Sum>(key, val)\<leftarrow>entries. 4 + length key + length val)"
  by (induction entries) (auto simp: packetBody_concat length_writeBlockVar)

lemma exampleRequest_derivedVars: "derivedVars asciiUpper exampleRequest = Return exampleDerived"
  by (simp add: derivedVars_def exampleRequest_def exampleDerived_def serverNamePort_def
        SplitHostPort_def LastIndexByte_def remoteAddrPort_def requestVars_def headerVars_def
        headerVarName_def ToUpper_def toUpperByte_def headerNameReplacer_Replace_def
        Header_Get_def char_of_eq_iff)

subsection \<open>Splitting host and port\<close>

lemma IndexByte_None: "IndexByte s c = None \<longleftrightarrow> c \<notin> set s"
  by (induction s) auto

lemma IndexByte_first: "c \<notin> set xs \<Longrightarrow> IndexByte (xs @ c # ys) c = Some (length xs)"
  by (induction xs) auto

lemma LastIndexByte_None: "LastIndexByte s c = None \<longleftrightarrow> c \<notin> set s"
  using IndexByte_None [of "rev s" c] by (auto simp: LastIndexByte_def split: option.splits)

lemma LastIndexByte_last: "c \<notin> set p \<Longrightarrow> LastIndexByte (h @ c # p) c = Some (length h)"
  using IndexByte_first [of c "rev p" "rev h"] by (simp add: LastIndexByte_def)

lemma SplitHostPort_no_colon:
  "CHR '':'' \<notin> set s \<Longrightarrow> SplitHostPort s = Inl (AddrError missingPort)"
  by (simp add: SplitHostPort_def LastIndexByte_None [THEN iffD2])

lemma SplitHostPort_name_port:
  assumes "set (h @ p) \<inter> {CHR '':'', CHR ''['', CHR '']''} = {}"
  shows "SplitHostPort (h @ CHR '':'' # p) = Inr (h, p)"
proof -
  from assms have hp: "CHR '':'' \<notin> set p" "CHR '':'' \<notin> set h" "CHR ''['' \<notin> set h"
    "CHR ''['' \<notin> set p" "CHR '']'' \<notin> set h" "CHR '']'' \<notin> set p" by auto
  have hd: "hd (h @ CHR '':'' # p) \<noteq> CHR ''[''"
    using hp(3) by (cases h) auto
  have "IndexByte (h @ CHR '':'' # p) (CHR ''['') = None"
       "IndexByte (h @ CHR '':'' # p) (CHR '']'') = None" "IndexByte h (CHR '':'') = None"
    using hp by (simp_all add: IndexByte_None)
  then show ?thesis
    using hd by (simp add: SplitHostPort_def LastIndexByte_last [OF hp(1)] splitTail_def)
qed

lemma SplitHostPort_brackets:
  assumes "CHR ''['' \<notin> set h" "CHR '']'' \<notin> set h"
    and "set p \<inter> {CHR '':'', CHR ''['', CHR '']''} = {}"
  shows "SplitHostPort (CHR ''['' # h @ CHR '']'' # CHR '':'' # p) = Inr (h, p)"
proof -
  let ?s = "CHR ''['' # h @ CHR '']'' # CHR '':'' # p"
  from assms have p: "CHR '':'' \<notin> set p" "CHR ''['' \<notin> set p" "CHR '']'' \<notin> set p" by auto
  have i: "LastIndexByte ?s (CHR '':'') = Some (length h + 2)"
    using LastIndexByte_last [OF p(1), of "CHR ''['' # h @ [CHR '']'']"] by simp
  have e: "IndexByte ?s (CHR '']'') = Some (length h + 1)"
    using IndexByte_first [of "CHR '']''" "CHR ''['' # h" "CHR '':'' # p"] assms(2) by simp
  have "IndexByte (h @ CHR '']'' # CHR '':'' # p) (CHR ''['') = None"
       "IndexByte (CHR '':'' # p) (CHR '']'') = None"
    using assms(1) p by (simp_all add: IndexByte_None)
  then show ?thesis
    unfolding SplitHostPort_def i e by (simp add: splitTail_def)
qed

subsection \<open>Split and Join\<close>

lemma Split_not_Nil: "Split s c \<noteq> []"
  by (induction s) (auto split: list.splits)

lemma Split_no_sep: "c \<notin> set s \<Longrightarrow> Split s c = [s]"
  by (induction s) auto

lemma Split_append_sep: "Split (a @ c # b) c = Split a c @ Split b c"
proof (induction a)
  case Nil
  then show ?case by simp
next
  case (Cons x a)
  then show ?case
    using Split_not_Nil [of a c] by (cases "Split a c") auto
qed

lemma Join_Cons: "Join (e # es) sep = (if es = [] then e else e @ sep @ Join es sep)"
  by (cases es) auto

lemma Join_Split: "Join (Split s c) [c] = s"
proof (induction s)
  case Nil
  then show ?case by simp
next
  case (Cons x s)
  then show ?case
    using Split_not_Nil [of s c]
    by (cases "Split s c") (auto simp: Join_Cons split: if_splits)
qed

lemma Split_last_sep:
  assumes "c \<notin> set p"
  shows "Join (butlast (Split (a @ c # p) c)) [c] = a" and "last (Split (a @ c # p) c) = p"
  using assms by (simp_all add: Split_append_sep Split_no_sep Join_Split)

subsection \<open>Names the header loop and the static loop leave alone\<close>

lemma headerVars_other:
  "\<forall>name \<in> fst ` set hdr. headerVarName up name \<noteq> N \<Longrightarrow>
     map_of (headerVars up vars hdr) N = map_of vars N"
  unfolding headerVars_def
  by (induction hdr arbitrary: vars) (auto simp: map_of_mapassign)

lemma staticVars_other:
  "N \<notin> fst ` set params \<Longrightarrow> map_of (staticVars vars params) N = map_of vars N"
  unfolding staticVars_def
  by (induction params arbitrary: vars) (auto simp: map_of_mapassign)

subsection \<open>Request-derived variables in the map\<close>

lemma derivedVars_Return:
  assumes "derivedVars up req = Return dvars"
  obtains ra rp where "remoteAddrPort req = Return (ra, rp)"
    and "dvars = headerVars up (requestVars req (fst (serverNamePort req)) (snd (serverNamePort req)) ra rp) (Header req)"
  using assms by (auto simp: derivedVars_def split: prod.splits outcome.splits)

lemma request_name_not_header: 
  "N \<in> {''SERVER_NAME'', ''SERVER_PORT'', ''REMOTE_ADDR'', ''REMOTE_PORT''} \<Longrightarrow> headerVarName up name \<noteq> N"
  by (auto simp: headerVarName_def)

lemma derivedVars_server:
  assumes "derivedVars up req = Return dvars"
  shows "map_of dvars ''SERVER_NAME'' = Some (fst (serverNamePort req))"
    and "map_of dvars ''SERVER_PORT'' = Some (snd (serverNamePort req))"
proof -
  from assms obtain ra rp where
    dv: "dvars = headerVars up (requestVars req (fst (serverNamePort req)) (snd (serverNamePort req)) ra rp) (Header req)"
    by (rule derivedVars_Return)
  show "map_of dvars ''SERVER_NAME'' = Some (fst (serverNamePort req))"
    unfolding dv by (subst headerVars_other) (simp_all add: request_name_not_header requestVars_def map_of_mapassign)
  show "map_of dvars ''SERVER_PORT'' = Some (snd (serverNamePort req))"
    unfolding dv by (subst headerVars_other) (simp_all add: request_name_not_header requestVars_def map_of_mapassign)
qed

lemma derivedVars_remote:
  assumes "derivedVars up req = Return dvars"
  shows "\<exists>ra rp. remoteAddrPort req = Return (ra, rp) \<and> map_of dvars ''REMOTE_ADDR'' = Some ra
     \<and> map_of dvars ''REMOTE_PORT'' = Some rp"
proof -
  from assms obtain ra rp where r: "remoteAddrPort req = Return (ra, rp)" and
    dv: "dvars = headerVars up (requestVars req (fst (serverNamePort req)) (snd (serverNamePort req)) ra rp) (Header req)"
    by (rule derivedVars_Return)
  have "map_of dvars ''REMOTE_ADDR'' = Some ra"
    unfolding dv by (subst headerVars_other) (simp_all add: request_name_not_header requestVars_def map_of_mapassign)
  moreover have "map_of dvars ''REMOTE_PORT'' = Some rp"
    unfolding dv by (subst headerVars_other) (simp_all add: request_name_not_header requestVars_def map_of_mapassign)
  ultimately show ?thesis using r by simp
qed

lemma block_keeps_derived:
  assumes "derivedVars up req = Return dvars" and "N \<notin> fst ` set (UWSGIParams t)"
  shows "\<exists>es. blockEntries up req t ks = Return es \<and> map_of es N = map_of dvars N"
proof -
  have "distinct (map fst (staticVars dvars (UWSGIParams t)))"
    using assms(1) by (simp add: distinct_staticVars distinct_derivedVars)
  then show ?thesis
    using assms by (simp add: blockEntries_def mergedVars_def map_of_rangeOrder staticVars_other)
qed

subsection \<open>The peer address\<close>

lemma bracketed_iff:
  "a \<noteq> [] \<Longrightarrow> (hd a = CHR ''['' \<and> last a = CHR '']'') \<longleftrightarrow> (\<exists>inner. a = CHR ''['' # inner @ '']'')"
proof
  assume a: "a \<noteq> []" and h: "hd a = CHR ''['' \<and> last a = CHR '']''"
  then obtain rest where r: "a = CHR ''['' # rest" by (cases a) auto
  with h have "rest \<noteq> []" "last rest = CHR '']''" by (auto split: if_splits)
  then have "rest = butlast rest @ '']''" by (metis append_butlast_last_id)
  with r show "\<exists>inner. a = CHR ''['' # inner @ '']''" by blast
next
  assume "\<exists>inner. a = CHR ''['' # inner @ '']''"
  then show "hd a = CHR ''['' \<and> last a = CHR '']''" by auto
qed

lemma remoteAddrPort_last_colon:
  assumes "RemoteAddr req = a @ CHR '':'' # p" and "CHR '':'' \<notin> set p"
  shows "remoteAddrPort req =
           (if a = [] then Panic IndexOutOfRange
            else Return (if \<exists>inner. a = CHR ''['' # inner @ '']'' then butlast (tl a) else a, p))"
proof (cases "a = []")
  case True
  then show ?thesis
    using assms by (simp add: remoteAddrPort_def Split_no_sep)
next
  case False
  have s: "Join (butlast (Split (RemoteAddr req) (CHR '':''))) '':'' = a"
          "last (Split (RemoteAddr req) (CHR '':'')) = p"
    using Split_last_sep [OF assms(2), of a] assms(1) by simp_all
  have t: "take (length a - 2) (drop 1 a) = butlast (tl a)"
    by (simp add: butlast_conv_take drop_Suc numeral_2_eq_2)
  show ?thesis
    using False bracketed_iff [OF False]
    by (simp add: remoteAddrPort_def s Let_def t del: One_nat_def)
qed

lemma remoteAddrPort_no_colon:
  "CHR '':'' \<notin> set (RemoteAddr req) \<Longrightarrow> remoteAddrPort req = Panic IndexOutOfRange"
  by (simp add: remoteAddrPort_def Split_no_sep)

lemma generateBlockVars_Panic:
  "remoteAddrPort req = Panic q \<Longrightarrow> generateBlockVars up req t ks = Panic q"
  by (simp add: generateBlockVars_def blockEntries_def mergedVars_def derivedVars_def
           split: prod.splits)

lemma derivedVars_exists:
  "remoteAddrPort req = Return (ra, rp) \<Longrightarrow> \<exists>dvars. derivedVars up req = Return dvars"
  by (simp add: derivedVars_def split: prod.splits)

subsection \<open>Header-derived variables in the map\<close>

lemma headerVars_snoc:
  "headerVars up vars (hdr @ [(name, value)]) =
     mapassign (headerVars up vars hdr) (headerVarName up name) (Join value '', '')"
  by (simp add: headerVars_def)

text \<open>The last header visited that gives the name decides its value.\<close>

lemma headerVars_lookup:
  "map_of (headerVars up vars hdr) N =
     (case find (\<lambda>(name, value). headerVarName up name = N) (rev hdr) of
        None \<Rightarrow> map_of vars N
      | Some (name, value) \<Rightarrow> Some (Join value '', ''))"
proof (induction hdr rule: rev_induct)
  case Nil
  then show ?case by (simp add: headerVars_def)
next
  case (snoc h hdr)
  obtain name vals where h: "h = (name, vals)" by (cases h)
  show ?case
    using snoc by (simp add: h headerVars_snoc map_of_mapassign)
qed

lemma find_SomeD: "find P xs = Some x \<Longrightarrow> x \<in> set xs \<and> P x"
  by (induction xs) (auto split: if_splits)

lemma headerVars_single:
  assumes "(name, values) \<in> set hdr"
    and "\<forall>(name', values') \<in> set hdr.
           headerVarName up name' = headerVarName up name \<longrightarrow> name' = name \<and> values' = values"
  shows "map_of (headerVars up vars hdr) (headerVarName up name) = Some (Join values '', '')"
proof -
  let ?P = "\<lambda>(name', value). headerVarName up name' = headerVarName up name"
  have "(name, values) \<in> set (rev hdr)" "?P (name, values)"
    using assms(1) by simp_all
  then obtain h where f: "find ?P (rev hdr) = Some h"
    by (cases "find ?P (rev hdr)") (auto simp: find_None_iff)
  then have "h \<in> set hdr" "?P h"
    using find_SomeD [OF f] by simp_all
  with assms(2) have "h = (name, values)" by auto
  with f show ?thesis by (simp add: headerVars_lookup)
qed

lemma toUpperByte_dash: "toUpperByte c = CHR ''-'' \<longleftrightarrow> c = CHR ''-''"
proof -
  have "toUpperByte c \<noteq> CHR ''-''" if "97 \<le> (of_char c :: nat)" "(of_char c :: nat) \<le> 122"
  proof -
    have "(of_char c :: nat) - 32 \<noteq> 45" using that by simp
    moreover have "(of_char c :: nat) - 32 < 256" using that by simp
    ultimately show ?thesis
      using that by (auto simp: toUpperByte_def Let_def char_of_eq_iff take_bit_eq_mod)
  qed
  moreover have "toUpperByte c = c" if "\<not> (97 \<le> (of_char c :: nat) \<and> (of_char c :: nat) \<le> 122)"
    using that by (auto simp: toUpperByte_def Let_def)
  moreover have "toUpperByte (CHR ''-'') = CHR ''-''" by (simp add: toUpperByte_def)
  ultimately show ?thesis by (cases "97 \<le> (of_char c :: nat) \<and> (of_char c :: nat) \<le> 122") auto
qed

lemma headerVarName_bytes:
  assumes "\<forall>c \<in> set name. (of_char c :: nat) < 128"
  shows "headerVarName up name =
           ''HTTP_'' @ map (\<lambda>c. if c = CHR ''-'' then CHR ''_'' else toUpperByte c) name"
  using assms
  by (simp add: headerVarName_def headerNameReplacer_Replace_def ToUpper_def toUpperByte_dash)

lemma collidingRequest_derivedVars: "derivedVars asciiUpper collidingRequest = Return collidingDerived"
  by code_simp



lemma exampleRequest_blockEntries:
  "blockEntries asciiUpper exampleRequest exampleTransport [] = Return exampleEntries"
  by (simp add: blockEntries_def mergedVars_def exampleRequest_derivedVars exampleDerived_def
        exampleTransport_def staticVars_def exampleEntries_def)

lemma blockEntries_noParams:
  "derivedVars up req = Return dvars \<Longrightarrow> blockEntries up req noParams [] = Return dvars"
  by (cases dvars) (simp_all add: blockEntries_def mergedVars_def noParams_def staticVars_def)

lemma distinct_blockEntries:
  "blockEntries up req t ks = Return es \<Longrightarrow> distinct (map fst es)"
  by (auto simp: blockEntries_def mergedVars_def distinct_keys_rangeOrder distinct_staticVars
        distinct_derivedVars split: outcome.splits)

lemma headerVarName_examples:
  "headerVarName asciiUpper ''X-Custom-Id'' = ''HTTP_X_CUSTOM_ID''"
  "headerVarName asciiUpper ''Accept'' = ''HTTP_ACCEPT''"
  "headerVarName asciiUpper ''X-A'' = ''HTTP_X_A''"
  "headerVarName asciiUpper ''X_a'' = ''HTTP_X_A''"
  by code_simp+

lemma Join_examples:
  "Join [''42''] '', '' = ''42''"
  "Join [''text/html'', ''application/json''] '', '' = ''text/html, application/json''"
  "Join [''1''] '', '' = ''1''"
  by simp_all

subsection \<open>The relay\<close>

lemma written_conn_Write: "written (fst (conn_Write env st b)) = written st @ b"
  by (simp add: conn_Write_def)

lemma closes_conn_Write: "closes (fst (conn_Write env st b)) = closes st"
  by (simp add: conn_Write_def)

lemma written_io_Copy_Buffer: "written (fst (io_Copy_Buffer env st buf)) = written st @ buf"
  by (simp add: io_Copy_Buffer_def written_conn_Write)

lemma closes_io_Copy_Buffer: "closes (fst (io_Copy_Buffer env st buf)) = closes st"
  by (simp add: io_Copy_Buffer_def closes_conn_Write)

lemma closes_copyChunks: "closes (fst (copyChunks env st cs)) = closes st"
  by (induction cs arbitrary: st) (auto simp: conn_Write_def)

lemma written_copyChunks_all:
  "\<forall>k. \<not> writeFails env k \<Longrightarrow>
     written (fst (copyChunks env st cs)) = written st @ concat cs"
  by (induction cs arbitrary: st) (auto simp: conn_Write_def)

lemma written_copyChunks_prefix:
  "\<exists>n. written (fst (copyChunks env st cs)) = written st @ concat (take n cs)"
proof (induction cs arbitrary: st)
  case Nil
  then show ?case by simp
next
  case (Cons c cs)
  let ?st' = "fst (conn_Write env st c)"
  consider (empty) "c = []" | (fails) "c \<noteq> []" "writeFails env (writes st)"
    | (goes) "c \<noteq> []" "\<not> writeFails env (writes st)" by blast
  then show ?case
  proof cases
    case empty
    from Cons [of st] obtain n where
      n: "written (fst (copyChunks env st cs)) = written st @ concat (take n cs)" by blast
    have "written (fst (copyChunks env st (c # cs))) = written st @ concat (take (Suc n) (c # cs))"
      using empty n by simp
    then show ?thesis by blast
  next
    case fails
    then have "copyChunks env st (c # cs) = (?st', Some WriteError)"
      by (simp add: conn_Write_def)
    then have "written (fst (copyChunks env st (c # cs))) = written st @ concat (take (Suc 0) (c # cs))"
      by (simp add: written_conn_Write)
    then show ?thesis by blast
  next
    case goes
    then have e: "copyChunks env st (c # cs) = copyChunks env ?st' cs"
      by (simp add: conn_Write_def)
    from Cons [of ?st'] obtain n where
      "written (fst (copyChunks env ?st' cs)) = written ?st' @ concat (take n cs)" by blast
    then have "written (fst (copyChunks env st (c # cs))) = written st @ concat (take (Suc n) (c # cs))"
      unfolding e by (simp add: written_conn_Write)
    then show ?thesis by blast
  qed
qed

lemma fst_io_Copy_Body: "fst (io_Copy_Body env st body) = fst (copyChunks env st (chunks body))"
  by (simp add: io_Copy_Body_def split: prod.splits option.splits)

text \<open>What a call that dials and encodes does, whatever the writes return.\<close>

lemma RoundTrip_encoded:
  assumes "\<not> dialFails env (fst (dialTarget env req)) (snd (dialTarget env req))"
    and "generateBlockVars up req t ks = Return (blk, err)"
  shows "returned (RoundTrip up env t req ks) = Return (reply env)"
    and "exit_at (RoundTrip up env t req ks) = Responded"
    and "closes (final (RoundTrip up env t req ks)) = (if Body req = None then 0 else 1)"
    and "\<exists>rest. written (final (RoundTrip up env t req ks)) =
            [0] @ LittleEndian_uint16 (uint16 (length blk)) @ [0] @ blk @ rest
          \<and> (case Body req of
                None \<Rightarrow> rest = []
              | Some body \<Rightarrow> (\<exists>n. rest = concat (take n (chunks body)))
                    \<and> ((\<forall>k. \<not> writeFails env k) \<longrightarrow> rest = concat (chunks body)))"
proof -
  have err: "err = None"
    using assms(2) by (auto simp: generateBlockVars_def split: outcome.splits)
  obtain network address where na: "dialTarget env req = (network, address)"
    by (cases "dialTarget env req")
  let ?st0 = "\<lparr>dialed = Some (network, address), written = [], writes = 0, closes = 0\<rparr>"
  let ?st4 = "fst (io_Copy_Buffer env (fst (conn_Write env (fst (conn_Write env
        (fst (conn_Write env ?st0 [0])) (LittleEndian_uint16 (uint16 (length blk))))) [0])) blk)"
  have w4: "written ?st4 = [0] @ LittleEndian_uint16 (uint16 (length blk)) @ [0] @ blk"
    and c4: "closes ?st4 = 0"
    by (simp_all add: written_io_Copy_Buffer written_conn_Write
          closes_io_Copy_Buffer closes_conn_Write)
  have r: "RoundTrip up env t req ks =
        \<lparr>returned = Return (reply env), exit_at = Responded,
         final = (case Body req of None \<Rightarrow> ?st4
                  | Some body \<Rightarrow> Body_Close (fst (io_Copy_Body env ?st4 body)))\<rparr>"
    using assms na by (simp add: RoundTrip_def err Let_def)
  show "returned (RoundTrip up env t req ks) = Return (reply env)"
    and "exit_at (RoundTrip up env t req ks) = Responded"
    by (simp_all add: r)
  show "closes (final (RoundTrip up env t req ks)) = (if Body req = None then 0 else 1)"
    unfolding r
    by (simp add: c4 Body_Close_def fst_io_Copy_Body closes_copyChunks split: option.splits)
  show "\<exists>rest. written (final (RoundTrip up env t req ks)) =
            [0] @ LittleEndian_uint16 (uint16 (length blk)) @ [0] @ blk @ rest
          \<and> (case Body req of
                None \<Rightarrow> rest = []
              | Some body \<Rightarrow> (\<exists>n. rest = concat (take n (chunks body)))
                    \<and> ((\<forall>k. \<not> writeFails env k) \<longrightarrow> rest = concat (chunks body)))"
  proof (cases "Body req")
    case None
    then show ?thesis unfolding r by (simp add: w4)
  next
    case (Some body)
    obtain n where
      n: "written (fst (copyChunks env ?st4 (chunks body))) = written ?st4 @ concat (take n (chunks body))"
      using written_copyChunks_prefix by blast
    have f: "written (final (RoundTrip up env t req ks)) = written (fst (copyChunks env ?st4 (chunks body)))"
      unfolding r by (simp add: Some Body_Close_def fst_io_Copy_Body)
    have p: "written (final (RoundTrip up env t req ks)) =
            [0] @ LittleEndian_uint16 (uint16 (length blk)) @ [0] @ blk @ concat (take n (chunks body))"
      unfolding f n w4 by simp
    have "concat (take n (chunks body)) = concat (chunks body)" if "\<forall>k. \<not> writeFails env k"
      using written_copyChunks_all [OF that, of ?st4 "chunks body"] n by simp
    then show ?thesis
      using p Some by auto
  qed
qed

subsection \<open>The length field and the example calls\<close>

lemma Uint16_roundtrip: "LittleEndian_Uint16 (LittleEndian_uint16 x) = x"
  unfolding LittleEndian_Uint16_def LittleEndian_uint16_def
  by (rule bit_word_eqI) (auto simp: bit_simps)

lemma unat_uint16: "unat (uint16 n) = n mod 65536"
  by (simp add: uint16_def unat_of_nat)

lemma LittleEndian_uint16_bytes:
  "\<exists>lo hi. LittleEndian_uint16 x = [lo, hi] \<and> unat lo = unat x mod 256 \<and> unat hi = unat x div 256"
proof -
  have "unat x < 65536"
    using unsigned_less [of x, where 'a = nat] by simp
  then have "unat x div 256 < 256" by simp
  moreover have "unat (drop_bit 8 x) = unat x div 256"
    by (simp only: unat_drop_bit_eq) (simp add: drop_bit_eq_div)
  ultimately have "unat (ucast (drop_bit 8 x) :: 8 word) = unat x div 256"
    by (simp only: unsigned_ucast_eq) (simp add: take_bit_eq_mod)
  moreover have "unat (ucast x :: 8 word) = unat x mod 256"
    by (simp add: unsigned_ucast_eq take_bit_eq_mod)
  ultimately show ?thesis by (simp add: LittleEndian_uint16_def)
qed

lemma bigRequest_derivedVars: "derivedVars asciiUpper bigRequest = Return bigDerived"
  by (simp add: derivedVars_def bigRequest_def exampleRequest_def bigDerived_def
        serverNamePort_def SplitHostPort_def LastIndexByte_def remoteAddrPort_def requestVars_def
        headerVars_def Header_Get_def)

lemma bigRequest_generateBlockVars:
  "generateBlockVars asciiUpper bigRequest noParams [] = Return (packetBody bigDerived, None)"
  using blockEntries_noParams [OF bigRequest_derivedVars] by (simp add: generateBlockVars_def)

lemma length_bigBlock: "length (packetBody bigDerived) = 131345"
  by (simp add: length_packetBody bigDerived_def)

lemma exampleRequest_generateBlockVars:
  "generateBlockVars asciiUpper exampleRequest exampleTransport [] = Return (packetBody exampleEntries, None)"
  by (simp add: generateBlockVars_def exampleRequest_blockEntries)

lemma length_exampleBlock: "length (packetBody exampleEntries) = 341"
  by (simp add: length_packetBody exampleEntries_def)

lemma exampleEnv_dials: "\<not> dialFails exampleEnv (fst (dialTarget exampleEnv req)) (snd (dialTarget exampleEnv req))"
  by (simp add: exampleEnv_def)

lemma brokenPipeEnv_dials:
  "\<not> dialFails brokenPipeEnv (fst (dialTarget brokenPipeEnv req)) (snd (dialTarget brokenPipeEnv req))"
  by (simp add: brokenPipeEnv_def exampleEnv_def)

lemma RoundTrip_dialFails:
  assumes "dialFails env (fst (dialTarget env req)) (snd (dialTarget env req))"
  shows "RoundTrip up env t req ks =
           \<lparr>returned = Return (Inl DialError), exit_at = DialFailed,
            final = \<lparr>dialed = None, written = [], writes = 0, closes = 0\<rparr>\<rparr>"
proof -
  obtain network address where na: "dialTarget env req = (network, address)"
    by (cases "dialTarget env req")
  show ?thesis using assms by (simp add: RoundTrip_def Let_def na)
qed

lemma RoundTrip_Panic:
  assumes "\<not> dialFails env (fst (dialTarget env req)) (snd (dialTarget env req))"
    and "generateBlockVars up req t ks = Panic q"
  shows "returned (RoundTrip up env t req ks) = Panic q"
    and "closes (final (RoundTrip up env t req ks)) = 0"
    and "written (final (RoundTrip up env t req ks)) = []"
proof -
  obtain network address where na: "dialTarget env req = (network, address)"
    by (cases "dialTarget env req")
  show "returned (RoundTrip up env t req ks) = Panic q"
    and "closes (final (RoundTrip up env t req ks)) = 0"
    and "written (final (RoundTrip up env t req ks)) = []"
    using assms by (simp_all add: RoundTrip_def Let_def na)
qed

lemma generateBlockVars_Body:
  "generateBlockVars up (req\<lparr>Body := b\<rparr>) t ks = generateBlockVars up req t ks"
  by (simp add: generateBlockVars_def blockEntries_def mergedVars_def derivedVars_def
        serverNamePort_def remoteAddrPort_def requestVars_def
      cong: outcome.case_cong prod.case_cong sum.case_cong)

lemma dialTarget_Body: "dialTarget env (req\<lparr>Body := b\<rparr>) = dialTarget env req"
  by (simp add: dialTarget_def cong: option.case_cong)

lemma dialTarget_writeFails: "dialTarget (env\<lparr>writeFails := w\<rparr>) req = dialTarget env req"
  by (simp add: dialTarget_def)

subsection \<open>Reading back what the encoder wrote\<close>

lemma string_of_bytes_of: "string_of (bytes_of s) = s"
proof -
  have "char_of (unat (of_char c :: 8 word)) = c" for c
  proof -
    have "(of_char c :: 8 word) = word_of_nat (of_char c)" by (simp add: of_nat_of_char)
    then have "unat (of_char c :: 8 word) = of_char c mod 256"
      by (simp add: unat_of_nat)
    then show ?thesis by simp
  qed
  then show ?thesis by (simp add: string_of_def bytes_of_def comp_def map_idI)
qed

lemma readBlockVar_prefix:
  "readBlockVar (LittleEndian_uint16 (uint16 n) @ b) =
     (if n mod 65536 \<le> length b
      then Some (string_of (take (n mod 65536) b), drop (n mod 65536) b) else None)"
proof -
  obtain lo hi where lh: "LittleEndian_uint16 (uint16 n) = [lo, hi]"
    using LittleEndian_uint16_bytes by blast
  have "unat (LittleEndian_Uint16 [lo, hi]) = n mod 65536"
    using Uint16_roundtrip [of "uint16 n"] by (simp add: lh unat_uint16)
  then show ?thesis by (simp add: lh Let_def)
qed

lemma readBlockVar_writeBlockVar:
  "length s < 65536 \<Longrightarrow> readBlockVar (writeBlockVar [] s @ b) = Some (s, b)"
  using readBlockVar_prefix [of "length s" "bytes_of s @ b"] string_of_bytes_of [of s]
  by (simp add: writeBlockVar_def Let_def bytes_of_def)

lemma writeBlockVar_not_Nil: "writeBlockVar [] s \<noteq> []"
  by (simp add: writeBlockVar_def Let_def LittleEndian_uint16_def)

lemma readBlock_packetBody:
  "\<forall>(k, v) \<in> set es. length k < 65536 \<and> length v < 65536 \<Longrightarrow>
     readBlock (packetBody es) = Some es"
proof (induction es)
  case Nil
  then show ?case by (simp add: packetBody_concat readBlock.simps)
next
  case (Cons e es)
  obtain k v where e: "e = (k, v)" by (cases e)
  from Cons.prems e have kv: "length k < 65536" "length v < 65536"
    and rest: "\<forall>(k, v) \<in> set es. length k < 65536 \<and> length v < 65536" by auto
  have p: "packetBody (e # es) = writeBlockVar [] k @ (writeBlockVar [] v @ packetBody es)"
    by (simp add: packetBody_concat e)
  show ?case
    unfolding p
    by (subst readBlock.simps)
       (simp add: writeBlockVar_not_Nil readBlockVar_writeBlockVar kv Cons.IH [OF rest] e)
qed

subsection \<open>A value longer than 65535 bytes\<close>

lemma smugglingRequest_derivedVars:
  "derivedVars asciiUpper smugglingRequest = Return smugglingDerived"
  by (simp add: derivedVars_def smugglingRequest_def exampleRequest_def smugglingDerived_def
        exampleDerived_def serverNamePort_def SplitHostPort_def LastIndexByte_def
        remoteAddrPort_def requestVars_def headerVars_def headerVarName_def ToUpper_def
        toUpperByte_def headerNameReplacer_Replace_def Header_Get_def)

lemma smuggled_bytes:
  "writeBlockVar [] smuggledValue =
     writeBlockVar [] ''a''
     @ writeBlockVar [] (replicate 2313 (CHR ''n'')) @ writeBlockVar [] (replicate 30323 (CHR ''x''))
     @ writeBlockVar [] (replicate 2313 (CHR ''n'')) @ writeBlockVar [] (replicate 30579 (CHR ''y''))"
  by (simp add: writeBlockVar_def smuggledValue_def bytes_of_def Let_def uint16_def
        LittleEndian_uint16_def)

lemma smuggled_packetBody: "packetBody smugglingDerived = packetBody smuggledEntries"
  by (simp add: packetBody_concat smugglingDerived_def smuggledEntries_def smuggled_bytes)

lemma smugglingRequest_generateBlockVars:
  "generateBlockVars asciiUpper smugglingRequest noParams [] = Return (packetBody smuggledEntries, None)"
  using blockEntries_noParams [OF smugglingRequest_derivedVars]
  by (simp add: generateBlockVars_def smuggled_packetBody)

lemma smuggledEntries_read: "readBlock (packetBody smuggledEntries) = Some smuggledEntries"
  by (rule readBlock_packetBody) (simp add: smuggledEntries_def exampleDerived_def)

lemma smuggledEntries_not_distinct: "\<not> distinct (map fst smuggledEntries)"
  by (simp add: smuggledEntries_def)

lemma smugglingDerived_distinct: "distinct (map fst smugglingDerived)"
  using distinct_derivedVars [OF smugglingRequest_derivedVars] .

lemma length_smuggledValue: "length smuggledValue = 65537"
  by (simp add: smuggledValue_def)

subsection \<open>Upper case\<close>

lemma toUpperByte_letters:
  "map toUpperByte ''abcdefghijklmnopqrstuvwxyz'' = ''ABCDEFGHIJKLMNOPQRSTUVWXYZ''"
  by code_simp

lemma lower_range:
  "c \<in> set ''abcdefghijklmnopqrstuvwxyz'' \<longleftrightarrow> 97 \<le> (of_char c :: nat) \<and> (of_char c :: nat) \<le> 122"
proof
  assume "c \<in> set ''abcdefghijklmnopqrstuvwxyz''"
  then show "97 \<le> (of_char c :: nat) \<and> (of_char c :: nat) \<le> 122" by auto
next
  assume r: "97 \<le> (of_char c :: nat) \<and> (of_char c :: nat) \<le> 122"
  define n where "n = (of_char c :: nat)"
  have c: "c = char_of n" by (simp add: n_def)
  have "n \<in> set [97..<123]" using r by (simp add: n_def del: upt_rec_numeral)
  then show "c \<in> set ''abcdefghijklmnopqrstuvwxyz''"
    unfolding c by (simp add: upt_rec_numeral char_of_eq_iff) (elim disjE; simp)
qed

lemma toUpperByte_table:
  "toUpperByte c =
     (case map_of (zip ''abcdefghijklmnopqrstuvwxyz'' ''ABCDEFGHIJKLMNOPQRSTUVWXYZ'') c of
        None \<Rightarrow> c | Some u \<Rightarrow> u)"
proof (cases "c \<in> set ''abcdefghijklmnopqrstuvwxyz''")
  case True
  then show ?thesis
    by simp (elim disjE; simp add: toUpperByte_def char_of_eq_iff)
next
  case False
  then have "map_of (zip ''abcdefghijklmnopqrstuvwxyz'' ''ABCDEFGHIJKLMNOPQRSTUVWXYZ'') c = None"
    by (simp add: map_of_eq_None_iff del: zip_Cons_Cons) (auto)
  moreover have "toUpperByte c = c"
    using False unfolding lower_range by (auto simp: toUpperByte_def Let_def)
  ultimately show ?thesis by simp
qed

lemma set_mapassign: "set (mapassign m k v) \<subseteq> set m \<union> {(k, v)}"
  by (induction m k v rule: mapassign.induct) auto

lemma set_staticVars: "set (staticVars vars params) \<subseteq> set vars \<union> set params"
  unfolding staticVars_def
proof (induction params arbitrary: vars)
  case Nil
  then show ?case by simp
next
  case (Cons p ps)
  obtain k v where p: "p = (k, v)" by (cases p)
  show ?case
    using Cons [of "mapassign vars k v"] set_mapassign [of vars k v] by (auto simp: p)
qed

text \<open>When every name and value fits a 16-bit length, a reader gets the entries back.\<close>

lemma block_reads_back:
  assumes "derivedVars up req = Return dvars"
    and "\<forall>(k, v) \<in> set dvars \<union> set (UWSGIParams t). length k < 65536 \<and> length v < 65536"
  shows "\<exists>blk es. generateBlockVars up req t ks = Return (blk, None)
            \<and> blockEntries up req t ks = Return es
            \<and> readBlock blk = Some es"
proof -
  let ?es = "rangeOrder ks (staticVars dvars (UWSGIParams t))"
  have es: "blockEntries up req t ks = Return ?es"
    using assms(1) by (simp add: blockEntries_def mergedVars_def)
  have "set ?es \<subseteq> set dvars \<union> set (UWSGIParams t)"
    using set_staticVars [of dvars "UWSGIParams t"] by (simp add: set_rangeOrder)
  then have "\<forall>(k, v) \<in> set ?es. length k < 65536 \<and> length v < 65536"
    using assms(2) by blast
  then have "readBlock (packetBody ?es) = Some ?es" by (rule readBlock_packetBody)
  then show ?thesis using es by (simp add: generateBlockVars_def)
qed

lemma exampleEntries_fit:
  "\<forall>(k, v) \<in> set exampleDerived \<union> set (UWSGIParams exampleTransport).
      length k < 65536 \<and> length v < 65536"
  by (simp add: exampleDerived_def exampleTransport_def)

lemma headerVarName_examples_up:
  "headerVarName up ''X-Custom-Id'' = ''HTTP_X_CUSTOM_ID''"
  "headerVarName up ''Accept'' = ''HTTP_ACCEPT''"
  by (simp_all add: headerVarName_bytes toUpperByte_def char_of_eq_iff)

lemma collidingDerived_fit:
  "\<forall>(k, v) \<in> set collidingDerived. length k < 65536 \<and> length v < 65536"
  by (simp add: collidingDerived_def)

lemma exampleEntries_read_fit:
  "\<forall>(k, v) \<in> set exampleEntries. length k < 65536 \<and> length v < 65536"
  by (simp add: exampleEntries_def)

subsection \<open>C1: one entry per name, static parameters win\<close>

text \<open>
  C1 as stated fails for the block the encoder produces: \<^verbatim>\<open>writeBlockVar\<close> writes the
  length of a name or value as \<^verbatim>\<open>uint16(len(b))\<close> and then all its bytes, so a value of
  65537 bytes is written under the length 1 and its remaining bytes are read as further
  entries. The map of the request below has 15 distinct names; the block the encoder
  returns for it reads as 17 entries, two of them with the same name.
\<close>

theorem block_duplicate_name_counterexample:
  "derivedVars asciiUpper smugglingRequest = Return smugglingDerived
   \<and> distinct (map fst smugglingDerived)
   \<and> generateBlockVars asciiUpper smugglingRequest noParams []
       = Return (packetBody smuggledEntries, None)
   \<and> readBlock (packetBody smuggledEntries) = Some smuggledEntries
   \<and> \<not> distinct (map fst smuggledEntries)"
  by (intro conjI smugglingRequest_derivedVars smugglingDerived_distinct
        smugglingRequest_generateBlockVars smuggledEntries_read smuggledEntries_not_distinct)

text \<open>
  C1, amended. For every request on which the encoder returns and every static parameter
  mapping, when every name and every value among the derived variables and the static
  parameters is shorter than 65536 bytes, and for every order in which the range loops
  visit the headers, the static parameters and the final map: the block the encoder
  returns reads as entries with pairwise different names, which are the derived variables
  overridden by the static parameters; every static parameter is in the block with its own
  value, also when a request-derived or header-derived variable has the same name. The
  static parameters are a Go map, so their names are distinct.
\<close>

theorem block_one_entry_per_name_static_wins:
  assumes "distinct (map fst (UWSGIParams t))"
    and "derivedVars up req = Return dvars"
    and "\<forall>(k, v) \<in> set dvars \<union> set (UWSGIParams t). length k < 65536 \<and> length v < 65536"
  shows "\<exists>blk es. generateBlockVars up req t ks = Return (blk, None)
            \<and> readBlock blk = Some es
            \<and> distinct (map fst es)
            \<and> map_of es = map_of dvars ++ map_of (UWSGIParams t)
            \<and> (\<forall>(k, v) \<in> set (UWSGIParams t). (k, v) \<in> set es)"
proof -
  obtain blk es where g: "generateBlockVars up req t ks = Return (blk, None)"
    and es: "blockEntries up req t ks = Return es" and r: "readBlock blk = Some es"
    using block_reads_back [OF assms(2,3)] by blast
  have e: "es = rangeOrder ks (staticVars dvars (UWSGIParams t))"
    using es assms(2) by (simp add: blockEntries_def mergedVars_def)
  have d: "distinct (map fst (staticVars dvars (UWSGIParams t)))"
    using assms(2) by (simp add: distinct_staticVars distinct_derivedVars)
  have des: "distinct (map fst es)"
    using es by (rule distinct_blockEntries)
  have m: "map_of es = map_of dvars ++ map_of (UWSGIParams t)"
    unfolding e using d assms(1) by (simp add: map_of_rangeOrder map_of_staticVars)
  have "(k, v) \<in> set es" if "(k, v) \<in> set (UWSGIParams t)" for k v
  proof -
    have "map_of (UWSGIParams t) k = Some v"
      using that assms(1) by simp
    then have "map_of es k = Some v" by (simp add: m)
    then show ?thesis by (rule map_of_SomeD)
  qed
  then have s: "\<forall>(k, v) \<in> set (UWSGIParams t). (k, v) \<in> set es" by auto
  show ?thesis
    using g r des m s by blast
qed

theorem block_one_entry_per_name_static_wins_witness:
  "distinct (map fst (UWSGIParams exampleTransport))
   \<and> derivedVars asciiUpper exampleRequest = Return exampleDerived
   \<and> (\<exists>blk es. generateBlockVars asciiUpper exampleRequest exampleTransport [3, 1, 4, 1, 5]
                  = Return (blk, None)
          \<and> readBlock blk = Some es
          \<and> distinct (map fst es)
          \<and> (''SERVER_NAME'', ''app.internal'') \<in> set es
          \<and> (''HTTP_ACCEPT'', ''*/*'') \<in> set es
          \<and> (''SCRIPT_NAME'', ''/app'') \<in> set es)"
proof -
  have d: "distinct (map fst (UWSGIParams exampleTransport))"
    by (simp add: exampleTransport_def)
  from block_one_entry_per_name_static_wins
         [OF d exampleRequest_derivedVars exampleEntries_fit, of "[3, 1, 4, 1, 5]"]
  obtain blk es where
    "generateBlockVars asciiUpper exampleRequest exampleTransport [3, 1, 4, 1, 5] = Return (blk, None)"
    "readBlock blk = Some es" "distinct (map fst es)"
    "\<forall>(k, v) \<in> set (UWSGIParams exampleTransport). (k, v) \<in> set es"
    by blast
  then have "\<exists>blk es. generateBlockVars asciiUpper exampleRequest exampleTransport [3, 1, 4, 1, 5]
                  = Return (blk, None)
          \<and> readBlock blk = Some es
          \<and> distinct (map fst es)
          \<and> (''SERVER_NAME'', ''app.internal'') \<in> set es
          \<and> (''HTTP_ACCEPT'', ''*/*'') \<in> set es
          \<and> (''SCRIPT_NAME'', ''/app'') \<in> set es"
    by (auto simp: exampleTransport_def)
  then show ?thesis
    using d exampleRequest_derivedVars by simp
qed

subsection \<open>C2: a block longer than 65535 bytes\<close>

text \<open>
  C2 as stated fails: nothing in the encoder or the relay compares a length with 65535.
  A request with a query string of 65536 bytes gives a block of 131345 bytes; the encoder
  returns it with a \<^verbatim>\<open>nil\<close> error, and the relay writes the header \<open>00 11 01 00\<close>
  (length 273), the whole block, and returns the backend's response.
\<close>

theorem oversize_block_counterexample:
  "generateBlockVars asciiUpper bigRequest noParams [] = Return (packetBody bigDerived, None)
   \<and> length (packetBody bigDerived) = 131345
   \<and> returned (RoundTrip asciiUpper exampleEnv noParams bigRequest []) = Return (Inr okResponse)
   \<and> written (final (RoundTrip asciiUpper exampleEnv noParams bigRequest [])) = [0, 17, 1, 0] @ packetBody bigDerived"
proof -
  have b: "Body bigRequest = None" by (simp add: bigRequest_def exampleRequest_def)
  have r: "returned (RoundTrip asciiUpper exampleEnv noParams bigRequest []) = Return (Inr okResponse)"
    using RoundTrip_encoded(1) [OF exampleEnv_dials bigRequest_generateBlockVars]
    by (simp add: exampleEnv_def)
  have l: "LittleEndian_uint16 (uint16 (length (packetBody bigDerived))) = [17, 1]"
    by (simp add: length_bigBlock uint16_def LittleEndian_uint16_def)
  have w: "written (final (RoundTrip asciiUpper exampleEnv noParams bigRequest [])) = [0, 17, 1, 0] @ packetBody bigDerived"
    using RoundTrip_encoded(4) [OF exampleEnv_dials bigRequest_generateBlockVars]
    by (simp add: b l)
  show ?thesis
    by (intro conjI bigRequest_generateBlockVars length_bigBlock r w)
qed

text \<open>
  C2, amended. For every request on which the dial succeeds and the encoder returns a
  block of \<open>L\<close> bytes, whatever \<open>L\<close> is: the encoder's error is \<^verbatim>\<open>nil\<close>, the relay goes
  on to its last \<^verbatim>\<open>return\<close> with what reading the response gives, and it hands the
  connection a header whose length field reads back as \<open>L mod 65536\<close> (the conversion
  \<^verbatim>\<open>uint16(blockVars.Len())\<close> keeps the low 16 bits), followed by the whole block.
\<close>

theorem oversize_block_wraps:
  assumes "\<not> dialFails env (fst (dialTarget env req)) (snd (dialTarget env req))"
    and "generateBlockVars up req t ks = Return (blk, err)"
  shows "err = None
       \<and> exit_at (RoundTrip up env t req ks) = Responded
       \<and> returned (RoundTrip up env t req ks) = Return (reply env)
       \<and> (\<exists>lo hi rest.
             written (final (RoundTrip up env t req ks)) = [0, lo, hi, 0] @ blk @ rest
           \<and> unat (LittleEndian_Uint16 [lo, hi]) = length blk mod 65536)"
proof -
  have e: "err = None"
    using assms(2) by (auto simp: generateBlockVars_def split: outcome.splits)
  obtain lo hi where lh: "LittleEndian_uint16 (uint16 (length blk)) = [lo, hi]"
    using LittleEndian_uint16_bytes by blast
  have u: "unat (LittleEndian_Uint16 [lo, hi]) = length blk mod 65536"
    using Uint16_roundtrip [of "uint16 (length blk)"] by (simp add: lh unat_uint16)
  obtain rest where "written (final (RoundTrip up env t req ks)) =
            [0] @ LittleEndian_uint16 (uint16 (length blk)) @ [0] @ blk @ rest"
    using RoundTrip_encoded(4) [OF assms] by blast
  then have "written (final (RoundTrip up env t req ks)) = [0, lo, hi, 0] @ blk @ rest"
    by (simp add: lh)
  with u have "\<exists>lo hi rest.
             written (final (RoundTrip up env t req ks)) = [0, lo, hi, 0] @ blk @ rest
           \<and> unat (LittleEndian_Uint16 [lo, hi]) = length blk mod 65536"
    by (intro exI [of _ lo] exI [of _ hi] exI [of _ rest]) simp
  then show ?thesis
    using e RoundTrip_encoded(1,2) [OF assms] by simp
qed

theorem oversize_block_wraps_witness:
  "\<not> dialFails exampleEnv (fst (dialTarget exampleEnv bigRequest)) (snd (dialTarget exampleEnv bigRequest))
   \<and> generateBlockVars asciiUpper bigRequest noParams [] = Return (packetBody bigDerived, None)
   \<and> exit_at (RoundTrip asciiUpper exampleEnv noParams bigRequest []) = Responded
   \<and> (\<exists>lo hi rest.
         written (final (RoundTrip asciiUpper exampleEnv noParams bigRequest [])) = [0, lo, hi, 0] @ packetBody bigDerived @ rest
       \<and> unat (LittleEndian_Uint16 [lo, hi]) = 273)"
  using oversize_block_wraps [OF exampleEnv_dials bigRequest_generateBlockVars]
    exampleEnv_dials [of bigRequest] bigRequest_generateBlockVars
  by (simp add: length_bigBlock)

subsection \<open>C3: a peer address without a separator\<close>

text \<open>
  C3 says that a request whose peer address has no \<open>:\<close> is rejected with an error. The
  encoder does not return at all on such a request: \<^verbatim>\<open>strings.Split\<close> gives one piece,
  the pieces before the last one joined are the empty string, and \<^verbatim>\<open>remoteAddr[0]\<close>
  panics with an index out of range. \<^verbatim>\<open>RoundTrip\<close> then either has failed to dial, or
  panics too, after the connection was opened.
\<close>

theorem no_separator_panics:
  assumes "CHR '':'' \<notin> set (RemoteAddr req)"
  shows "generateBlockVars up req t ks = Panic IndexOutOfRange
       \<and> (exit_at (RoundTrip up env t req ks) = DialFailed
          \<or> returned (RoundTrip up env t req ks) = Panic IndexOutOfRange)"
proof -
  have g: "generateBlockVars up req t ks = Panic IndexOutOfRange"
    using assms by (simp add: generateBlockVars_Panic remoteAddrPort_no_colon)
  then show ?thesis
    by (auto simp: RoundTrip_def Let_def split: prod.splits)
qed

theorem no_separator_panics_witness:
  "CHR '':'' \<notin> set (RemoteAddr (exampleRequest\<lparr>RemoteAddr := ''@''\<rparr>))
   \<and> generateBlockVars asciiUpper (exampleRequest\<lparr>RemoteAddr := ''@''\<rparr>) exampleTransport [] = Panic IndexOutOfRange
   \<and> returned (RoundTrip asciiUpper exampleEnv exampleTransport (exampleRequest\<lparr>RemoteAddr := ''@''\<rparr>) [])
       = Panic IndexOutOfRange"
proof -
  have c: "CHR '':'' \<notin> set (RemoteAddr (exampleRequest\<lparr>RemoteAddr := ''@''\<rparr>))" by simp
  have "exit_at (RoundTrip asciiUpper exampleEnv exampleTransport (exampleRequest\<lparr>RemoteAddr := ''@''\<rparr>) [])
          \<noteq> DialFailed"
    by (simp add: RoundTrip_def exampleEnv_def Let_def split: prod.splits outcome.splits option.splits)
  then show ?thesis
    using c no_separator_panics
            [OF c, where up = asciiUpper and t = exampleTransport and ks = "[]" and env = exampleEnv] by simp
qed

subsection \<open>C4: a failed write\<close>

text \<open>
  C4 as stated fails: the relay drops what its four writes and the copy of the body
  return. On a connection where every write fails and the backend's response can still be
  read, the call returns the parsed response.
\<close>

theorem write_failure_counterexample:
  "writeFails brokenPipeEnv 0 \<and> writeFails brokenPipeEnv 1 \<and> writeFails brokenPipeEnv 2
   \<and> writeFails brokenPipeEnv 3 \<and> writeFails brokenPipeEnv 4
   \<and> returned (RoundTrip asciiUpper brokenPipeEnv exampleTransport exampleRequest []) = Return (Inr okResponse)
   \<and> exit_at (RoundTrip asciiUpper brokenPipeEnv exampleTransport exampleRequest []) = Responded"
  using RoundTrip_encoded(1,2) [OF brokenPipeEnv_dials exampleRequest_generateBlockVars]
  by (simp add: brokenPipeEnv_def exampleEnv_def)

text \<open>
  C4, amended. For every request on which the dial succeeds and the encoder returns,
  whatever the writes on the connection return and whatever the body's reads deliver or
  fail with: the relay goes on to read the response and returns exactly what
  \<^verbatim>\<open>http.ReadResponse\<close> returns. A failure to write the header, the block or the body is
  not itself returned to the caller.
\<close>

theorem write_failure_not_propagated:
  assumes "\<not> dialFails env (fst (dialTarget env req)) (snd (dialTarget env req))"
    and "generateBlockVars up req t ks = Return (blk, err)"
  shows "returned (RoundTrip up (env\<lparr>writeFails := w\<rparr>) t (req\<lparr>Body := b\<rparr>) ks) = Return (reply env)
       \<and> exit_at (RoundTrip up (env\<lparr>writeFails := w\<rparr>) t (req\<lparr>Body := b\<rparr>) ks) = Responded"
proof -
  let ?env = "env\<lparr>writeFails := w\<rparr>" and ?req = "req\<lparr>Body := b\<rparr>"
  have d: "\<not> dialFails ?env (fst (dialTarget ?env ?req)) (snd (dialTarget ?env ?req))"
    using assms(1) by (simp add: dialTarget_Body dialTarget_writeFails)
  have g: "generateBlockVars up ?req t ks = Return (blk, err)"
    using assms(2) by (simp add: generateBlockVars_Body)
  from RoundTrip_encoded(1,2) [OF d g] show ?thesis by simp
qed

theorem write_failure_not_propagated_witness:
  "\<not> dialFails exampleEnv (fst (dialTarget exampleEnv exampleRequest))
        (snd (dialTarget exampleEnv exampleRequest))
   \<and> generateBlockVars asciiUpper exampleRequest exampleTransport []
       = Return (packetBody exampleEntries, None)
   \<and> returned (RoundTrip asciiUpper (exampleEnv\<lparr>writeFails := (\<lambda>n. 2 \<le> n)\<rparr>) exampleTransport
                 (exampleRequest\<lparr>Body := Some \<lparr>chunks = [[1, 2]], readFails = True\<rparr>\<rparr>) [])
       = Return (Inr okResponse)"
  using write_failure_not_propagated
          [OF exampleEnv_dials exampleRequest_generateBlockVars, of "\<lambda>n. 2 \<le> n"
            "Some \<lparr>chunks = [[1, 2]], readFails = True\<rparr>"]
    exampleEnv_dials [of exampleRequest] exampleRequest_generateBlockVars
  by (simp add: exampleEnv_def)

subsection \<open>C5: the frame header\<close>

text \<open>
  C5 as stated fails on the size of the header: a modifier byte, two bytes of length and
  a modifier byte are four bytes, so the block starts at the fifth byte written, not at
  the fourth.
\<close>

theorem header_three_bytes_counterexample:
  "generateBlockVars asciiUpper exampleRequest exampleTransport [] = Return (packetBody exampleEntries, None)
   \<and> length (packetBody exampleEntries) = 341
   \<and> written (final (RoundTrip asciiUpper exampleEnv exampleTransport exampleRequest []))
       = [0, 85, 1, 0] @ packetBody exampleEntries
   \<and> drop 3 (written (final (RoundTrip asciiUpper exampleEnv exampleTransport exampleRequest [])))
       \<noteq> packetBody exampleEntries"
proof -
  have b: "Body exampleRequest = None" by (simp add: exampleRequest_def)
  have l: "LittleEndian_uint16 (uint16 (length (packetBody exampleEntries))) = [85, 1]"
    by (simp add: length_exampleBlock uint16_def LittleEndian_uint16_def)
  have w: "written (final (RoundTrip asciiUpper exampleEnv exampleTransport exampleRequest []))
       = [0, 85, 1, 0] @ packetBody exampleEntries"
    using RoundTrip_encoded(4) [OF exampleEnv_dials exampleRequest_generateBlockVars]
    by (simp add: b l)
  have "length (drop 3 (written (final (RoundTrip asciiUpper exampleEnv exampleTransport exampleRequest []))))
          \<noteq> length (packetBody exampleEntries)"
    unfolding w by simp
  then have d: "drop 3 (written (final (RoundTrip asciiUpper exampleEnv exampleTransport exampleRequest [])))
       \<noteq> packetBody exampleEntries" by metis
  show ?thesis
    by (intro conjI exampleRequest_generateBlockVars length_exampleBlock w d)
qed

text \<open>
  C5, amended. For every request on which the dial succeeds and the encoder returns a
  block of \<open>L \<le> 65535\<close> bytes, the relay hands the connection the four bytes \<open>00\<close>,
  \<open>L mod 256\<close>, \<open>L div 256\<close>, \<open>00\<close>, then the block, then what it copies of the body
  (nothing when the request has no body); the two middle bytes read back as a
  little-endian \<^verbatim>\<open>uint16\<close> are \<open>L\<close>.
\<close>

theorem frame_header_roundtrip:
  assumes "\<not> dialFails env (fst (dialTarget env req)) (snd (dialTarget env req))"
    and "generateBlockVars up req t ks = Return (blk, err)"
    and "length blk \<le> 65535"
  shows "\<exists>lo hi rest.
           written (final (RoundTrip up env t req ks)) = [0, lo, hi, 0] @ blk @ rest
         \<and> unat lo = length blk mod 256 \<and> unat hi = length blk div 256
         \<and> unat (LittleEndian_Uint16 [lo, hi]) = length blk
         \<and> (Body req = None \<longrightarrow> rest = [])"
proof -
  have n: "unat (uint16 (length blk)) = length blk"
    using assms(3) by (simp add: unat_uint16)
  obtain lo hi where lh: "LittleEndian_uint16 (uint16 (length blk)) = [lo, hi]"
    and b: "unat lo = length blk mod 256" "unat hi = length blk div 256"
    using LittleEndian_uint16_bytes [of "uint16 (length blk)"] n by auto
  have u: "unat (LittleEndian_Uint16 [lo, hi]) = length blk"
    using Uint16_roundtrip [of "uint16 (length blk)"] by (simp add: lh n)
  obtain rest where w: "written (final (RoundTrip up env t req ks)) =
            [0] @ LittleEndian_uint16 (uint16 (length blk)) @ [0] @ blk @ rest"
    and r: "Body req = None \<longrightarrow> rest = []"
    using RoundTrip_encoded(4) [OF assms(1,2)] by (auto split: option.splits)
  have "written (final (RoundTrip up env t req ks)) = [0, lo, hi, 0] @ blk @ rest"
    using w by (simp add: lh)
  then show ?thesis
    using b u r by (intro exI [of _ lo] exI [of _ hi] exI [of _ rest]) simp
qed

theorem frame_header_roundtrip_witness:
  "\<not> dialFails exampleEnv (fst (dialTarget exampleEnv exampleRequest)) (snd (dialTarget exampleEnv exampleRequest))
   \<and> generateBlockVars asciiUpper exampleRequest exampleTransport [] = Return (packetBody exampleEntries, None)
   \<and> length (packetBody exampleEntries) \<le> 65535
   \<and> Body exampleRequest = None
   \<and> (\<exists>lo hi. written (final (RoundTrip asciiUpper exampleEnv exampleTransport exampleRequest []))
                  = [0, lo, hi, 0] @ packetBody exampleEntries
         \<and> unat (LittleEndian_Uint16 [lo, hi]) = 341)"
proof -
  have l: "length (packetBody exampleEntries) \<le> 65535" by (simp add: length_exampleBlock)
  have b: "Body exampleRequest = None" by (simp add: exampleRequest_def)
  from frame_header_roundtrip [OF exampleEnv_dials exampleRequest_generateBlockVars l]
  obtain lo hi rest where
    "written (final (RoundTrip asciiUpper exampleEnv exampleTransport exampleRequest []))
       = [0, lo, hi, 0] @ packetBody exampleEntries @ rest"
    "unat (LittleEndian_Uint16 [lo, hi]) = length (packetBody exampleEntries)"
    "Body exampleRequest = None \<longrightarrow> rest = []" by auto
  then have "\<exists>lo hi. written (final (RoundTrip asciiUpper exampleEnv exampleTransport exampleRequest []))
                  = [0, lo, hi, 0] @ packetBody exampleEntries
         \<and> unat (LittleEndian_Uint16 [lo, hi]) = 341"
    using b by (auto simp: length_exampleBlock)
  then show ?thesis
    using exampleEnv_dials [of exampleRequest] exampleRequest_generateBlockVars l b by simp
qed

subsection \<open>C6: one variable per header\<close>

text \<open>
  C6 as stated fails in three ways. Two header fields with different names can give the
  same variable name (\<^verbatim>\<open>X-A\<close> and \<^verbatim>\<open>X_a\<close> both give \<open>HTTP_X_A\<close>), and then the block has
  the value of the one the range loop visits last and no entry for the other. A static
  parameter named like the variable replaces it (C1). And a header value of more than
  65535 bytes is written under a wrapped length, so that the entry a reader finds has only
  its first bytes.
\<close>

theorem header_variable_entry_counterexample:
  "(''X-A'', [''1'']) \<in> set (Header collidingRequest)
   \<and> headerVarName asciiUpper ''X-A'' = ''HTTP_X_A''
   \<and> Join [''1''] '', '' = ''1''
   \<and> generateBlockVars asciiUpper collidingRequest noParams []
       = Return (packetBody collidingDerived, None)
   \<and> readBlock (packetBody collidingDerived) = Some collidingDerived
   \<and> (''HTTP_X_A'', ''1'') \<notin> set collidingDerived
   \<and> (''Accept'', [''text/html'', ''application/json'']) \<in> set (Header exampleRequest)
   \<and> generateBlockVars asciiUpper exampleRequest exampleTransport []
       = Return (packetBody exampleEntries, None)
   \<and> readBlock (packetBody exampleEntries) = Some exampleEntries
   \<and> (''HTTP_ACCEPT'', ''text/html, application/json'') \<notin> set exampleEntries
   \<and> (''X-A'', [smuggledValue]) \<in> set (Header smugglingRequest)
   \<and> Join [smuggledValue] '', '' = smuggledValue
   \<and> generateBlockVars asciiUpper smugglingRequest noParams []
       = Return (packetBody smuggledEntries, None)
   \<and> readBlock (packetBody smuggledEntries) = Some smuggledEntries
   \<and> (''HTTP_X_A'', smuggledValue) \<notin> set smuggledEntries"
proof -
  have a: "(''X-A'', [''1'']) \<in> set (Header collidingRequest)"
    by (simp add: collidingRequest_def)
  have b: "generateBlockVars asciiUpper collidingRequest noParams []
             = Return (packetBody collidingDerived, None)"
    using blockEntries_noParams [OF collidingRequest_derivedVars]
    by (simp add: generateBlockVars_def)
  have b': "readBlock (packetBody collidingDerived) = Some collidingDerived"
    using collidingDerived_fit by (rule readBlock_packetBody)
  have c: "(''HTTP_X_A'', ''1'') \<notin> set collidingDerived"
    by (simp add: collidingDerived_def)
  have d: "(''Accept'', [''text/html'', ''application/json'']) \<in> set (Header exampleRequest)"
    by (simp add: exampleRequest_def)
  have d': "readBlock (packetBody exampleEntries) = Some exampleEntries"
    using exampleEntries_read_fit by (rule readBlock_packetBody)
  have e: "(''HTTP_ACCEPT'', ''text/html, application/json'') \<notin> set exampleEntries"
    by (simp add: exampleEntries_def)
  have f: "(''X-A'', [smuggledValue]) \<in> set (Header smugglingRequest)"
    by (simp add: smugglingRequest_def)
  have j: "Join [smuggledValue] '', '' = smuggledValue" by simp
  have "v \<noteq> smuggledValue" if "(k, v) \<in> set smuggledEntries" for k v
  proof -
    have "length v < 65537"
      using that by (auto simp: smuggledEntries_def exampleDerived_def)
    then show ?thesis using length_smuggledValue by auto
  qed
  then have g: "(''HTTP_X_A'', smuggledValue) \<notin> set smuggledEntries" by blast
  show ?thesis
    by (intro conjI a headerVarName_examples(3) Join_examples(3) b b' c d
          exampleRequest_generateBlockVars d' e f j smugglingRequest_generateBlockVars
          smuggledEntries_read g)
qed

text \<open>
  C6, amended. For every header \<open>(name, vals)\<close> of a request on which the encoder returns,
  when no other header of the request gives the same variable name, no static parameter
  has that name, and every name and value among the derived variables and the static
  parameters is shorter than 65536 bytes: the variable name is \<open>HTTP_\<close> followed by the
  header name in upper case (\<^verbatim>\<open>strings.ToUpper\<close>: \<open>a\<close> to \<open>z\<close> become \<open>A\<close> to \<open>Z\<close> and every
  other byte stays when all bytes are below 128, the Unicode mapping \<open>up\<close> otherwise) with
  every \<open>-\<close> replaced by \<open>_\<close>, and the block the encoder returns reads as entries of which
  exactly one has that name; its value is the header's values joined with a comma and a
  space. \<^verbatim>\<open>X-Custom-Id: 42\<close> gives \<open>HTTP_X_CUSTOM_ID\<close> with \<open>42\<close>, and \<^verbatim>\<open>Accept\<close> sent
  twice gives one \<open>HTTP_ACCEPT\<close> with both values joined.
\<close>

theorem header_variable_entry:
  assumes "derivedVars up req = Return dvars"
    and "(name, vals) \<in> set (Header req)"
    and "\<forall>(name', vals') \<in> set (Header req).
           headerVarName up name' = headerVarName up name \<longrightarrow> name' = name \<and> vals' = vals"
    and "headerVarName up name \<notin> fst ` set (UWSGIParams t)"
    and "\<forall>(k, v) \<in> set dvars \<union> set (UWSGIParams t). length k < 65536 \<and> length v < 65536"
  shows "headerVarName up name =
           ''HTTP_'' @ map (\<lambda>c. if c = CHR ''-'' then CHR ''_'' else c) (ToUpper up name)
       \<and> ((\<forall>c \<in> set name. (of_char c :: nat) < 128) \<longrightarrow>
            ToUpper up name =
              map (\<lambda>c. case map_of (zip ''abcdefghijklmnopqrstuvwxyz''
                                        ''ABCDEFGHIJKLMNOPQRSTUVWXYZ'') c of
                          None \<Rightarrow> c | Some u \<Rightarrow> u) name)
       \<and> ((\<exists>c \<in> set name. 128 \<le> (of_char c :: nat)) \<longrightarrow> ToUpper up name = up name)
       \<and> (\<exists>blk es. generateBlockVars up req t ks = Return (blk, None)
              \<and> readBlock blk = Some es
              \<and> (headerVarName up name, Join vals '', '') \<in> set es
              \<and> (\<forall>v. (headerVarName up name, v) \<in> set es \<longrightarrow> v = Join vals '', ''))
       \<and> headerVarName up ''X-Custom-Id'' = ''HTTP_X_CUSTOM_ID''
       \<and> Join [''42''] '', '' = ''42''
       \<and> headerVarName up ''Accept'' = ''HTTP_ACCEPT''
       \<and> Join [''text/html'', ''application/json''] '', '' = ''text/html, application/json''"
proof -
  let ?N = "headerVarName up name"
  from assms(1) obtain ra rp where
    dv: "dvars = headerVars up (requestVars req (fst (serverNamePort req))
                   (snd (serverNamePort req)) ra rp) (Header req)"
    by (rule derivedVars_Return)
  have m: "map_of dvars ?N = Some (Join vals '', '')"
    unfolding dv using assms(2,3) by (rule headerVars_single)
  obtain blk es where g: "generateBlockVars up req t ks = Return (blk, None)"
    and es: "blockEntries up req t ks = Return es" and r: "readBlock blk = Some es"
    using block_reads_back [OF assms(1,5)] by blast
  have e: "map_of es ?N = map_of dvars ?N"
    using block_keeps_derived [OF assms(1,4), of ks] es by simp
  have d: "distinct (map fst es)" using es by (rule distinct_blockEntries)
  have i: "(?N, Join vals '', '') \<in> set es"
    using e m by (simp add: map_of_SomeD)
  have u: "\<forall>v. (?N, v) \<in> set es \<longrightarrow> v = Join vals '', ''"
    using d i by (meson eq_key_imp_eq_value)
  have ex: "\<exists>blk es. generateBlockVars up req t ks = Return (blk, None)
              \<and> readBlock blk = Some es
              \<and> (?N, Join vals '', '') \<in> set es
              \<and> (\<forall>v. (?N, v) \<in> set es \<longrightarrow> v = Join vals '', '')"
    using g r i u by blast
  have n: "?N = ''HTTP_'' @ map (\<lambda>c. if c = CHR ''-'' then CHR ''_'' else c) (ToUpper up name)"
    by (simp add: headerVarName_def headerNameReplacer_Replace_def)
  have a: "(\<forall>c \<in> set name. (of_char c :: nat) < 128) \<longrightarrow>
            ToUpper up name =
              map (\<lambda>c. case map_of (zip ''abcdefghijklmnopqrstuvwxyz''
                                        ''ABCDEFGHIJKLMNOPQRSTUVWXYZ'') c of
                          None \<Rightarrow> c | Some u \<Rightarrow> u) name"
    unfolding ToUpper_def using toUpperByte_table by presburger
  have b: "(\<exists>c \<in> set name. 128 \<le> (of_char c :: nat)) \<longrightarrow> ToUpper up name = up name"
    by (auto simp: ToUpper_def)
  show ?thesis
    by (intro conjI n a b ex headerVarName_examples_up Join_examples(1,2))
qed

theorem header_variable_entry_witness:
  "derivedVars asciiUpper exampleRequest = Return exampleDerived
   \<and> (''X-Custom-Id'', [''42'']) \<in> set (Header exampleRequest)
   \<and> (''Accept'', [''text/html'', ''application/json'']) \<in> set (Header exampleRequest)
   \<and> (\<exists>blk es. generateBlockVars asciiUpper exampleRequest noParams [2, 7, 1] = Return (blk, None)
          \<and> readBlock blk = Some es
          \<and> (''HTTP_X_CUSTOM_ID'', ''42'') \<in> set es)
   \<and> (\<exists>blk es. generateBlockVars asciiUpper exampleRequest noParams [2, 7, 1] = Return (blk, None)
          \<and> readBlock blk = Some es
          \<and> (''HTTP_ACCEPT'', ''text/html, application/json'') \<in> set es)"
proof -
  have h: "(''X-Custom-Id'', [''42'']) \<in> set (Header exampleRequest)"
    "(''Accept'', [''text/html'', ''application/json'']) \<in> set (Header exampleRequest)"
    by (simp_all add: exampleRequest_def)
  have u1: "\<forall>(name', vals') \<in> set (Header exampleRequest).
           headerVarName asciiUpper name' = headerVarName asciiUpper ''X-Custom-Id''
             \<longrightarrow> name' = ''X-Custom-Id'' \<and> vals' = [''42'']"
    by (simp add: exampleRequest_def headerVarName_examples)
  have u2: "\<forall>(name', vals') \<in> set (Header exampleRequest).
           headerVarName asciiUpper name' = headerVarName asciiUpper ''Accept''
             \<longrightarrow> name' = ''Accept'' \<and> vals' = [''text/html'', ''application/json'']"
    by (simp add: exampleRequest_def headerVarName_examples)
  have s: "headerVarName asciiUpper ''X-Custom-Id'' \<notin> fst ` set (UWSGIParams noParams)"
    "headerVarName asciiUpper ''Accept'' \<notin> fst ` set (UWSGIParams noParams)"
    by (simp_all add: noParams_def)
  have f: "\<forall>(k, v) \<in> set exampleDerived \<union> set (UWSGIParams noParams).
             length k < 65536 \<and> length v < 65536"
    by (simp add: exampleDerived_def noParams_def)
  from header_variable_entry [OF exampleRequest_derivedVars h(1) u1 s(1) f, of "[2, 7, 1]"]
  obtain blk es where
    "generateBlockVars asciiUpper exampleRequest noParams [2, 7, 1] = Return (blk, None)"
    "readBlock blk = Some es"
    "(headerVarName asciiUpper ''X-Custom-Id'', Join [''42''] '', '') \<in> set es" by blast
  then have e1: "\<exists>blk es. generateBlockVars asciiUpper exampleRequest noParams [2, 7, 1] = Return (blk, None)
          \<and> readBlock blk = Some es
          \<and> (''HTTP_X_CUSTOM_ID'', ''42'') \<in> set es"
    unfolding headerVarName_examples Join_examples by blast
  from header_variable_entry [OF exampleRequest_derivedVars h(2) u2 s(2) f, of "[2, 7, 1]"]
  obtain blk' es' where
    "generateBlockVars asciiUpper exampleRequest noParams [2, 7, 1] = Return (blk', None)"
    "readBlock blk' = Some es'"
    "(headerVarName asciiUpper ''Accept'', Join [''text/html'', ''application/json''] '', '') \<in> set es'"
    by blast
  then have e2: "\<exists>blk es. generateBlockVars asciiUpper exampleRequest noParams [2, 7, 1] = Return (blk, None)
          \<and> readBlock blk = Some es
          \<and> (''HTTP_ACCEPT'', ''text/html, application/json'') \<in> set es"
    unfolding headerVarName_examples Join_examples by blast
  show ?thesis
    by (intro conjI exampleRequest_derivedVars h e1 e2)
qed

subsection \<open>C7: SERVER_NAME and SERVER_PORT\<close>

text \<open>
  C7. The name and the port of the server come from \<^verbatim>\<open>net.SplitHostPort\<close> on the
  request's host string. When the host string has no \<open>:\<close> (and whenever the split reports
  an error) the whole host string is the name and the port is \<open>443\<close> for a secure request
  and \<open>80\<close> otherwise; when the split succeeds the name is its host part and the port its
  port part (the default again when that part is empty, as for a host string that ends in
  \<open>:\<close>). A host \<open>h:p\<close> with \<open>p\<close> not empty and no \<open>:\<close>, \<open>[\<close> or \<open>]\<close> in \<open>h\<close> and \<open>p\<close> gives
  \<open>h\<close> and \<open>p\<close>, and so does \<open>[h]:p\<close>; \<open>example.com:8080\<close> gives \<open>example.com\<close> and \<open>8080\<close>.
  These are the values of \<open>SERVER_NAME\<close> and \<open>SERVER_PORT\<close> among the derived variables; no
  header-derived name can replace them, and they are in the block unless a static parameter
  has the name.
\<close>

theorem server_name_and_port:
  "\<exists>name port.
      serverNamePort req = (name, port)
    \<and> (CHR '':'' \<notin> set (Host req) \<longrightarrow>
          name = Host req \<and> port = (if TLS req then ''443'' else ''80''))
    \<and> (\<forall>e. SplitHostPort (Host req) = Inl e \<longrightarrow>
          name = Host req \<and> port = (if TLS req then ''443'' else ''80''))
    \<and> (\<forall>h p. SplitHostPort (Host req) = Inr (h, p) \<longrightarrow>
          name = h \<and> port = (if p = [] then (if TLS req then ''443'' else ''80'') else p))
    \<and> (\<forall>h p. Host req = h @ CHR '':'' # p \<and> p \<noteq> []
              \<and> set (h @ p) \<inter> {CHR '':'', CHR ''['', CHR '']''} = {} \<longrightarrow>
          name = h \<and> port = p)
    \<and> (\<forall>h p. Host req = CHR ''['' # h @ CHR '']'' # CHR '':'' # p \<and> p \<noteq> []
              \<and> CHR ''['' \<notin> set h \<and> CHR '']'' \<notin> set h
              \<and> set p \<inter> {CHR '':'', CHR ''['', CHR '']''} = {} \<longrightarrow>
          name = h \<and> port = p)
    \<and> (Host req = ''example.com:8080'' \<longrightarrow> name = ''example.com'' \<and> port = ''8080'')
    \<and> (\<forall>dvars. derivedVars up req = Return dvars \<longrightarrow>
          map_of dvars ''SERVER_NAME'' = Some name \<and> map_of dvars ''SERVER_PORT'' = Some port
        \<and> (''SERVER_NAME'' \<notin> fst ` set (UWSGIParams t) \<longrightarrow>
             (\<exists>es. blockEntries up req t ks = Return es \<and> map_of es ''SERVER_NAME'' = Some name))
        \<and> (''SERVER_PORT'' \<notin> fst ` set (UWSGIParams t) \<longrightarrow>
             (\<exists>es. blockEntries up req t ks = Return es \<and> map_of es ''SERVER_PORT'' = Some port)))"
proof -
  let ?d = "if TLS req then ''443'' else ''80''"
  obtain name port where np: "serverNamePort req = (name, port)"
    by (cases "serverNamePort req")
  have fail: "name = Host req \<and> port = ?d" if "SplitHostPort (Host req) = Inl e" for e
    using np that by (auto simp: serverNamePort_def)
  have ok: "name = h \<and> port = (if p = [] then ?d else p)"
    if "SplitHostPort (Host req) = Inr (h, p)" for h p
    using np that by (auto simp: serverNamePort_def)
  have nocolon: "name = Host req \<and> port = ?d" if "CHR '':'' \<notin> set (Host req)"
    using fail [OF SplitHostPort_no_colon [OF that]] .
  have split: "name = h \<and> port = p"
    if "Host req = h @ CHR '':'' # p \<and> p \<noteq> []
        \<and> set (h @ p) \<inter> {CHR '':'', CHR ''['', CHR '']''} = {}" for h p
    using ok [of h p] SplitHostPort_name_port [of h p] that by simp
  have v6: "name = h \<and> port = p"
    if "Host req = CHR ''['' # h @ CHR '']'' # CHR '':'' # p \<and> p \<noteq> []
        \<and> CHR ''['' \<notin> set h \<and> CHR '']'' \<notin> set h
        \<and> set p \<inter> {CHR '':'', CHR ''['', CHR '']''} = {}" for h p
    using ok [of h p] SplitHostPort_brackets [of h p] that by simp
  have ex: "name = ''example.com'' \<and> port = ''8080''" if "Host req = ''example.com:8080''"
    using split [of "''example.com''" "''8080''"] that by simp
  have dv: "map_of dvars ''SERVER_NAME'' = Some name \<and> map_of dvars ''SERVER_PORT'' = Some port
        \<and> (''SERVER_NAME'' \<notin> fst ` set (UWSGIParams t) \<longrightarrow>
             (\<exists>es. blockEntries up req t ks = Return es \<and> map_of es ''SERVER_NAME'' = Some name))
        \<and> (''SERVER_PORT'' \<notin> fst ` set (UWSGIParams t) \<longrightarrow>
             (\<exists>es. blockEntries up req t ks = Return es \<and> map_of es ''SERVER_PORT'' = Some port))"
    if d: "derivedVars up req = Return dvars" for dvars
    using derivedVars_server [OF d] np
      block_keeps_derived [OF d, of "''SERVER_NAME''" t ks]
      block_keeps_derived [OF d, of "''SERVER_PORT''" t ks]
    by auto
  show ?thesis
    using np fail ok nocolon split v6 ex dv by blast
qed

theorem server_name_and_port_witness:
  "CHR '':'' \<notin> set (Host exampleRequest)
   \<and> derivedVars asciiUpper exampleRequest = Return exampleDerived
   \<and> map_of exampleDerived ''SERVER_NAME'' = Some ''svc.local''
   \<and> map_of exampleDerived ''SERVER_PORT'' = Some ''80''
   \<and> serverNamePort (exampleRequest\<lparr>Host := ''example.com'', TLS := True\<rparr>)
       = (''example.com'', ''443'')
   \<and> serverNamePort (exampleRequest\<lparr>Host := ''example.com:8080''\<rparr>)
       = (''example.com'', ''8080'')"
proof -
  have a: "map_of exampleDerived ''SERVER_NAME'' = Some ''svc.local''
         \<and> map_of exampleDerived ''SERVER_PORT'' = Some ''80''"
    using server_name_and_port
            [where req = exampleRequest and up = asciiUpper and t = noParams and ks = "[]"] exampleRequest_derivedVars
    by (auto simp: exampleRequest_def)
  have b: "serverNamePort (exampleRequest\<lparr>Host := ''example.com'', TLS := True\<rparr>)
             = (''example.com'', ''443'')"
    using server_name_and_port
            [where req = "exampleRequest\<lparr>Host := ''example.com'', TLS := True\<rparr>"
               and up = asciiUpper and t = noParams and ks = "[]"]
    by auto
  have c: "serverNamePort (exampleRequest\<lparr>Host := ''example.com:8080''\<rparr>)
             = (''example.com'', ''8080'')"
    using server_name_and_port
            [where req = "exampleRequest\<lparr>Host := ''example.com:8080''\<rparr>"
               and up = asciiUpper and t = noParams and ks = "[]"]
    by auto
  show ?thesis
    using a b c exampleRequest_derivedVars by (simp add: exampleRequest_def)
qed

subsection \<open>C8: REMOTE_ADDR and REMOTE_PORT\<close>

text \<open>
  C8. Let the peer address be \<open>a:p\<close> with no \<open>:\<close> in \<open>p\<close>, so that \<open>a\<close> is the part before
  the last \<open>:\<close> and \<open>p\<close> the part after it. When \<open>a\<close> is not empty, the derived
  \<open>REMOTE_PORT\<close> is \<open>p\<close> and the derived \<open>REMOTE_ADDR\<close> is \<open>a\<close>, without its brackets when
  \<open>a\<close> starts with \<open>[\<close> and ends with \<open>]\<close>; both are in the block unless a static
  parameter has the name. When \<open>a\<close> is empty (a peer address such as \<open>:54321\<close>) the encoder
  panics at \<^verbatim>\<open>remoteAddr[0]\<close>, where the claim has \<open>REMOTE_ADDR\<close> empty.
\<close>

theorem remote_addr_and_port:
  assumes "RemoteAddr req = a @ CHR '':'' # p" and "CHR '':'' \<notin> set p"
  shows "(a = [] \<longrightarrow> generateBlockVars up req t ks = Panic IndexOutOfRange)
       \<and> (a \<noteq> [] \<longrightarrow> (\<exists>addr dvars.
              derivedVars up req = Return dvars
            \<and> map_of dvars ''REMOTE_ADDR'' = Some addr
            \<and> map_of dvars ''REMOTE_PORT'' = Some p
            \<and> (\<forall>inner. a = CHR ''['' # inner @ '']'' \<longrightarrow> addr = inner)
            \<and> ((\<nexists>inner. a = CHR ''['' # inner @ '']'') \<longrightarrow> addr = a)
            \<and> (''REMOTE_ADDR'' \<notin> fst ` set (UWSGIParams t) \<longrightarrow>
                 (\<exists>es. blockEntries up req t ks = Return es \<and> map_of es ''REMOTE_ADDR'' = Some addr))
            \<and> (''REMOTE_PORT'' \<notin> fst ` set (UWSGIParams t) \<longrightarrow>
                 (\<exists>es. blockEntries up req t ks = Return es \<and> map_of es ''REMOTE_PORT'' = Some p))))"
proof (intro conjI impI)
  assume "a = []"
  then show "generateBlockVars up req t ks = Panic IndexOutOfRange"
    using remoteAddrPort_last_colon [OF assms] by (simp add: generateBlockVars_Panic)
next
  assume a: "a \<noteq> []"
  define addr where "addr = (if \<exists>inner. a = CHR ''['' # inner @ '']'' then butlast (tl a) else a)"
  have r: "remoteAddrPort req = Return (addr, p)"
    using remoteAddrPort_last_colon [OF assms] a by (simp add: addr_def)
  then obtain dvars where d: "derivedVars up req = Return dvars"
    using derivedVars_exists by blast
  have m: "map_of dvars ''REMOTE_ADDR'' = Some addr" "map_of dvars ''REMOTE_PORT'' = Some p"
    using derivedVars_remote [OF d] r by auto
  have i: "\<forall>inner. a = CHR ''['' # inner @ '']'' \<longrightarrow> addr = inner"
    by (auto simp: addr_def)
  have n: "(\<nexists>inner. a = CHR ''['' # inner @ '']'') \<longrightarrow> addr = a"
    by (simp add: addr_def)
  have b1: "''REMOTE_ADDR'' \<notin> fst ` set (UWSGIParams t) \<longrightarrow>
       (\<exists>es. blockEntries up req t ks = Return es \<and> map_of es ''REMOTE_ADDR'' = Some addr)"
    using block_keeps_derived [OF d, of "''REMOTE_ADDR''" t ks] m by auto
  have b2: "''REMOTE_PORT'' \<notin> fst ` set (UWSGIParams t) \<longrightarrow>
       (\<exists>es. blockEntries up req t ks = Return es \<and> map_of es ''REMOTE_PORT'' = Some p)"
    using block_keeps_derived [OF d, of "''REMOTE_PORT''" t ks] m by auto
  show "\<exists>addr dvars.
              derivedVars up req = Return dvars
            \<and> map_of dvars ''REMOTE_ADDR'' = Some addr
            \<and> map_of dvars ''REMOTE_PORT'' = Some p
            \<and> (\<forall>inner. a = CHR ''['' # inner @ '']'' \<longrightarrow> addr = inner)
            \<and> ((\<nexists>inner. a = CHR ''['' # inner @ '']'') \<longrightarrow> addr = a)
            \<and> (''REMOTE_ADDR'' \<notin> fst ` set (UWSGIParams t) \<longrightarrow>
                 (\<exists>es. blockEntries up req t ks = Return es \<and> map_of es ''REMOTE_ADDR'' = Some addr))
            \<and> (''REMOTE_PORT'' \<notin> fst ` set (UWSGIParams t) \<longrightarrow>
                 (\<exists>es. blockEntries up req t ks = Return es \<and> map_of es ''REMOTE_PORT'' = Some p))"
    using d m i n b1 b2 by blast
qed

theorem remote_addr_and_port_witness:
  "RemoteAddr exampleRequest = ''[::1]'' @ CHR '':'' # ''54321''
   \<and> derivedVars asciiUpper exampleRequest = Return exampleDerived
   \<and> map_of exampleDerived ''REMOTE_ADDR'' = Some ''::1''
   \<and> map_of exampleDerived ''REMOTE_PORT'' = Some ''54321''
   \<and> RemoteAddr (exampleRequest\<lparr>RemoteAddr := '':54321''\<rparr>) = [] @ CHR '':'' # ''54321''
   \<and> generateBlockVars asciiUpper (exampleRequest\<lparr>RemoteAddr := '':54321''\<rparr>) exampleTransport []
       = Panic IndexOutOfRange"
proof -
  have r: "RemoteAddr exampleRequest = ''[::1]'' @ CHR '':'' # ''54321''"
    by (simp add: exampleRequest_def)
  have c: "CHR '':'' \<notin> set ''54321''" by simp
  have one: "map_of exampleDerived ''REMOTE_ADDR'' = Some ''::1''
           \<and> map_of exampleDerived ''REMOTE_PORT'' = Some ''54321''"
    using remote_addr_and_port [OF r c, where up = asciiUpper and t = noParams and ks = "[]"] exampleRequest_derivedVars by auto
  have r': "RemoteAddr (exampleRequest\<lparr>RemoteAddr := '':54321''\<rparr>) = [] @ CHR '':'' # ''54321''"
    by simp
  have two: "generateBlockVars asciiUpper (exampleRequest\<lparr>RemoteAddr := '':54321''\<rparr>) exampleTransport []
               = Panic IndexOutOfRange"
    using remote_addr_and_port [OF r' c, where up = asciiUpper and t = exampleTransport and ks = "[]"] by simp
  show ?thesis
    using r one r' two exampleRequest_derivedVars by simp
qed

subsection \<open>C9: closing the request body\<close>

text \<open>
  C9 says that a request's body is closed exactly once on every way out of the call. The
  relay closes it once when it has dialled and the encoder has returned, after the copy
  and whatever the copy returned; it does not close it when the dial fails (the
  \<^verbatim>\<open>return nil, err\<close> of line 154 comes before the only \<^verbatim>\<open>req.Body.Close()\<close>), nor when
  the encoder panics. The number of \<^verbatim>\<open>Close\<close> calls on the body is:
\<close>

theorem body_close_count:
  "closes (final (RoundTrip up env t req ks)) =
     (if Body req \<noteq> None
         \<and> \<not> dialFails env (fst (dialTarget env req)) (snd (dialTarget env req))
         \<and> (\<forall>q. generateBlockVars up req t ks \<noteq> Panic q)
      then 1 else 0)"
proof (cases "dialFails env (fst (dialTarget env req)) (snd (dialTarget env req))")
  case True
  then show ?thesis by (simp add: RoundTrip_dialFails)
next
  case False
  show ?thesis
  proof (cases "generateBlockVars up req t ks")
    case (Panic q)
    then show ?thesis using RoundTrip_Panic(2) [OF False Panic] by simp
  next
    case (Return r)
    obtain blk err where "r = (blk, err)" by (cases r)
    with Return have g: "generateBlockVars up req t ks = Return (blk, err)" by simp
    show ?thesis using RoundTrip_encoded(3) [OF False g] False g by simp
  qed
qed

theorem body_close_count_witness:
  "Body postRequest \<noteq> None
   \<and> returned (RoundTrip asciiUpper refusedEnv exampleTransport postRequest []) = Return (Inl DialError)
   \<and> closes (final (RoundTrip asciiUpper refusedEnv exampleTransport postRequest [])) = 0
   \<and> closes (final (RoundTrip asciiUpper exampleEnv exampleTransport postRequest [])) = 1"
proof -
  have b: "Body postRequest \<noteq> None" by (simp add: postRequest_def)
  have d: "dialFails refusedEnv (fst (dialTarget refusedEnv postRequest)) (snd (dialTarget refusedEnv postRequest))"
    by (simp add: refusedEnv_def)
  have r: "returned (RoundTrip asciiUpper refusedEnv exampleTransport postRequest []) = Return (Inl DialError)"
    by (simp add: RoundTrip_dialFails [OF d])
  have z: "closes (final (RoundTrip asciiUpper refusedEnv exampleTransport postRequest [])) = 0"
    using body_close_count
            [where up = asciiUpper and env = refusedEnv and t = exampleTransport
               and req = postRequest and ks = "[]"] d by simp
  have "remoteAddrPort postRequest = Return (''::1'', ''54321'')"
    by code_simp
  then have "\<forall>q. generateBlockVars asciiUpper postRequest exampleTransport [] \<noteq> Panic q"
    by (simp add: generateBlockVars_def blockEntries_def mergedVars_def derivedVars_def
          split: prod.splits)
  then have o: "closes (final (RoundTrip asciiUpper exampleEnv exampleTransport postRequest [])) = 1"
    using body_close_count
            [where up = asciiUpper and env = exampleEnv and t = exampleTransport
               and req = postRequest and ks = "[]"] b exampleEnv_dials [of postRequest]
    by simp
  show ?thesis by (intro conjI b r z o)
qed

subsection \<open>C10: the encoder never returns an error\<close>

text \<open>
  C10. Whenever \<^verbatim>\<open>generateBlockVars\<close> returns, the error it returns is \<^verbatim>\<open>nil\<close>, so no
  call of \<^verbatim>\<open>RoundTrip\<close> ends at the \<^verbatim>\<open>return nil, err\<close> of line 159.
\<close>

theorem encoder_error_always_nil:
  "(generateBlockVars up req t ks = Return (buf, err) \<longrightarrow> err = None)
   \<and> exit_at (RoundTrip up env t req ks) \<noteq> EncodingFailed"
proof
  show "generateBlockVars up req t ks = Return (buf, err) \<longrightarrow> err = None"
    by (auto simp: generateBlockVars_def split: outcome.splits)
next
  have "generateBlockVars up req t ks \<noteq> Return (b, Some e)" for b e
    by (auto simp: generateBlockVars_def split: outcome.splits)
  then show "exit_at (RoundTrip up env t req ks) \<noteq> EncodingFailed"
    by (auto simp: RoundTrip_def Let_def split: prod.splits outcome.splits option.splits)
qed

theorem encoder_error_always_nil_witness:
  "generateBlockVars asciiUpper exampleRequest noParams [] = Return (packetBody exampleDerived, None)
   \<and> exit_at (RoundTrip asciiUpper exampleEnv noParams exampleRequest []) \<noteq> EncodingFailed"
  using encoder_error_always_nil
          [where up = asciiUpper and req = exampleRequest and t = noParams and ks = "[]"
             and buf = "packetBody exampleDerived" and err = None and env = exampleEnv]
  by (simp add: generateBlockVars_def blockEntries_def mergedVars_def
        exampleRequest_derivedVars staticVars_def noParams_def exampleDerived_def)

end
